theory Spec2Isabelle
  imports Complex_Main "HOL-Library.Sublist" "HOL-Library.Char_ord" "HOL-Library.List_Lexorder"
begin

section \<open>Python strings\<close>

text \<open>
  Python \<open>str\<close> values are modelled as \<open>string\<close>, one \<open>char\<close> per code point, which
  covers the code points below 256 (Latin-1). The character classes below are the ones
  Python's \<open>str.isalnum\<close>, \<open>str.isspace\<close> (used by \<open>str.strip\<close>) and \<open>str.lower\<close>
  implement on that range.
\<close>

definition code_point :: "char \<Rightarrow> nat" where
  "code_point c = of_char c"

definition isalnum :: "char \<Rightarrow> bool" where
  "isalnum c = (let n = code_point c in
     (48 \<le> n \<and> n \<le> 57) \<or> (65 \<le> n \<and> n \<le> 90) \<or> (97 \<le> n \<and> n \<le> 122) \<or>
     n = 170 \<or> n = 178 \<or> n = 179 \<or> n = 181 \<or> n = 185 \<or> n = 186 \<or>
     (188 \<le> n \<and> n \<le> 190) \<or> (192 \<le> n \<and> n \<le> 214) \<or> (216 \<le> n \<and> n \<le> 246) \<or>
     (248 \<le> n \<and> n \<le> 255))"

definition isspace :: "char \<Rightarrow> bool" where
  "isspace c = (let n = code_point c in
     (9 \<le> n \<and> n \<le> 13) \<or> (28 \<le> n \<and> n \<le> 32) \<or> n = 133 \<or> n = 160)"

definition strip :: "string \<Rightarrow> string" where
  "strip s = rev (dropWhile isspace (rev (dropWhile isspace s)))"

definition lower_char :: "char \<Rightarrow> char" where
  "lower_char c = (let n = code_point c in
     if (65 \<le> n \<and> n \<le> 90) \<or> (192 \<le> n \<and> n \<le> 222 \<and> n \<noteq> 215)
     then char_of (n + 32) else c)"

definition lower :: "string \<Rightarrow> string" where
  "lower s = map lower_char s"

text \<open>\<open>a in b\<close> on strings, \<open>s.startswith(p)\<close> and \<open>s.endswith(p)\<close>.\<close>

definition contains :: "string \<Rightarrow> string \<Rightarrow> bool" where
  "contains needle hay = sublist needle hay"

definition startswith :: "string \<Rightarrow> string \<Rightarrow> bool" where
  "startswith s p = prefix p s"

definition endswith :: "string \<Rightarrow> string \<Rightarrow> bool" where
  "endswith s p = suffix p s"

text \<open>\<open>x or d\<close> on strings: the empty string is falsy.\<close>

definition str_or :: "string \<Rightarrow> string \<Rightarrow> string" where
  "str_or x d = (if x = [] then d else x)"

section \<open>File names (scrape.py, archive.py)\<close>

text \<open>
  \<open>safe_filename\<close> exists twice, with different punctuation sets: scrape.py allows
  \<open>- _ . + =\<close>, archive.py allows \<open>- _ . +\<close> and the space.
\<close>

definition scrape_punctuation :: "char set" where
  "scrape_punctuation = {CHR ''-'', CHR ''_'', CHR ''.'', CHR ''+'', CHR ''=''}"


definition safe_filename_with :: "char set \<Rightarrow> string \<Rightarrow> string" where
  "safe_filename_with allowed s =
     str_or (strip (filter (\<lambda>c. isalnum c \<or> c \<in> allowed) s)) ''file''"

definition safe_filename :: "string \<Rightarrow> string" where
  "safe_filename s = safe_filename_with scrape_punctuation s"




section \<open>The environment: network, file system, libraries\<close>

text \<open>
  A \<open>requests.Response\<close> as far as the crawler reads it: the status code, \<open>resp.url\<close>
  (the final URL after redirects), the content-type header if there is one, the body as
  bytes (\<open>resp.content\<close>, also what \<open>iter_content\<close> streams) and as decoded text
  (\<open>resp.text\<close>).
\<close>

record response =
  resp_status_code :: nat
  resp_url :: string
  resp_content_type :: "string option"
  resp_content :: string
  resp_text :: string

text \<open>One HTTP GET either raises (connection error, timeout, ...) or gives a response.\<close>

datatype get_outcome = Raises string | Responds response

text \<open>
  \<open>Response.raise_for_status()\<close> raises for the 4xx and 5xx status codes only;
  \<open>Response.__bool__\<close> is \<open>Response.ok\<close>: true unless \<open>raise_for_status\<close> raises.
\<close>

definition raises_for_status :: "response \<Rightarrow> bool" where
  "raises_for_status r = (400 \<le> resp_status_code r \<and> resp_status_code r < 600)"

definition resp_truthy :: "response \<Rightarrow> bool" where
  "resp_truthy r = (\<not> raises_for_status r)"

text \<open>\<open>resp.headers.get("content-type", "")\<close> and \<open>resp.headers.get("Content-Type") or ""\<close>
  (the header names of \<open>requests\<close> are case-insensitive).\<close>

definition header_content_type :: "response \<Rightarrow> string" where
  "header_content_type r = (case resp_content_type r of None \<Rightarrow> [] | Some ct \<Rightarrow> ct)"

text \<open>A parsed HTML document (BeautifulSoup): text nodes, comments and tags with their
  attributes and children. The document itself is a tag named \<open>[document]\<close>.\<close>

datatype node =
    NavigableString string
  | Comment string
  | Tag string "(string \<times> string) list" "node list"

text \<open>The result of \<open>urllib.parse.urlparse\<close>, as far as it is read.\<close>

record parsed_url =
  scheme :: string
  netloc :: string
  path :: string
  query :: string

text \<open>The record one crawl task produces (the \<open>result\<close> dict of \<open>process_url\<close>);
  \<open>children_count\<close> is a key that only some records have.\<close>

record result =
  source_url :: string
  root_url :: string
  fetched_url :: "string option"
  local_path :: "string option"
  downloaded :: bool
  content_type :: "string option"
  status_code :: "nat option"
  title :: "string option"
  published :: "string option"
  full_text_path :: "string option"
  article_text_path :: "string option"
  article_text :: "string option"
  full_text :: "string option"
  error :: "string option"
  discovered_links :: "string list"
  children_count :: "nat option"

text \<open>
  What the program does not decide itself is a parameter: the answer to the \<open>n\<close>-th GET
  request of the run, whether opening a path for writing raises (and the message), and
  the library functions (the HTML parser, pdfminer, dateutil, urllib, json, mimetypes)
  and the clock (\<open>datetime.utcnow().isoformat() + "Z"\<close> after \<open>n\<close> events). The records
  of scrape.py are dicts of strings, kept as lists of key and value.
\<close>

record world =
  http_get :: "nat \<Rightarrow> string \<Rightarrow> get_outcome"
  write_error :: "string \<Rightarrow> string option"
  parse_html :: "string \<Rightarrow> node"
  pdf_extract :: "string \<Rightarrow> string option"
  parse_date :: "string \<Rightarrow> string option"
  urlparse :: "string \<Rightarrow> parsed_url"
  urljoin :: "string \<Rightarrow> string \<Rightarrow> string"
  json_dumps :: "result \<Rightarrow> string"
  json_dump_indent :: "result \<Rightarrow> string"
  json_dumps_dict :: "(string \<times> string) list \<Rightarrow> string"
  guess_extension :: "string \<Rightarrow> string option"
  utcnow :: "nat \<Rightarrow> string"

text \<open>The effects a run leaves behind, in order: GET requests, sleeps (seconds), the
  log line \<open>[Depth d] Processing url\<close> of scraper.py, and the printed lines
  \<open>[ARCHIVE] Page n: url\<close> and \<open>[ITEM] url\<close> of scrape.py.\<close>

datatype event =
    Get string
  | Sleep rat
  | Processing nat string
  | Page nat string
  | Item string

record crawl_state =
  visited :: "string set"
  files :: "string \<rightharpoonup> string"
  trace :: "event list"

definition emit :: "event \<Rightarrow> crawl_state \<Rightarrow> crawl_state" where
  "emit e st = st\<lparr>trace := trace st @ [e]\<rparr>"

fun is_get :: "event \<Rightarrow> bool" where
  "is_get (Get u) = True"
| "is_get _ = False"

definition requests_made :: "crawl_state \<Rightarrow> nat" where
  "requests_made st = length (filter is_get (trace st))"

section \<open>Fetching (scraper.py, scrape.py)\<close>

definition REQUEST_RETRIES :: nat where
  "REQUEST_RETRIES = 3"

text \<open>
  One attempt of \<open>safe_get\<close>: \<open>session.get\<close> followed by \<open>raise_for_status\<close>; any
  exception is caught by the caller's \<open>except Exception\<close>.
\<close>

definition attempt :: "world \<Rightarrow> string \<Rightarrow> crawl_state \<Rightarrow> response option \<times> crawl_state" where
  "attempt w u st =
     (case http_get w (requests_made st) u of
        Raises e \<Rightarrow> (None, emit (Get u) st)
      | Responds r \<Rightarrow> (if raises_for_status r then None else Some r, emit (Get u) st))"

text \<open>The \<open>n\<close>-th request of the run fails when it raises or \<open>raise_for_status\<close> does.\<close>

definition attempt_fails :: "world \<Rightarrow> nat \<Rightarrow> string \<Rightarrow> bool" where
  "attempt_fails w n u =
     (case http_get w n u of Raises e \<Rightarrow> True | Responds r \<Rightarrow> raises_for_status r)"

text \<open>The loop \<open>for i in range(REQUEST_RETRIES)\<close> of \<open>safe_get\<close>, from index \<open>i\<close> on.\<close>

function safe_get_from :: "world \<Rightarrow> string \<Rightarrow> nat \<Rightarrow> crawl_state \<Rightarrow> response option \<times> crawl_state" where
  "safe_get_from w u i st =
     (if i < REQUEST_RETRIES then
        (case attempt w u st of
           (Some r, st1) \<Rightarrow> (Some r, st1)
         | (None, st1) \<Rightarrow> safe_get_from w u (Suc i) (emit (Sleep (1 + of_nat i * 2)) st1))
      else (None, st))"
  by pat_completeness auto
termination
  by (relation "measure (\<lambda>(w, u, i, st). REQUEST_RETRIES - i)") auto

definition safe_get :: "world \<Rightarrow> string \<Rightarrow> crawl_state \<Rightarrow> response option \<times> crawl_state" where
  "safe_get w u st = safe_get_from w u 0 st"

text \<open>\<open>fetch\<close> of scrape.py: a single attempt, \<open>None\<close> on any exception.\<close>

definition fetch :: "world \<Rightarrow> string \<Rightarrow> crawl_state \<Rightarrow> response option \<times> crawl_state" where
  "fetch w u st = attempt w u st"

definition is_pdf_response :: "response option \<Rightarrow> string \<Rightarrow> bool" where
  "is_pdf_response resp u =
     (case resp of
        None \<Rightarrow> False
      | Some r \<Rightarrow>
          if \<not> resp_truthy r then False
          else if contains ''pdf'' (lower (header_content_type r)) then True
          else if endswith (lower u) ''.pdf'' then True
          else False)"

section \<open>HTML documents (BeautifulSoup)\<close>

text \<open>All nodes below a node, in document order.\<close>

fun descendants :: "node \<Rightarrow> node list" where
  "descendants (Tag n as cs) = concat (map (\<lambda>c. c # descendants c) cs)"
| "descendants (NavigableString s) = []"
| "descendants (Comment s) = []"

text \<open>\<open>get_text(separator="")\<close>: the text nodes below a tag, concatenated; comments are
  left out.\<close>

fun get_text :: "node \<Rightarrow> string" where
  "get_text (NavigableString s) = s"
| "get_text (Comment s) = []"
| "get_text (Tag n as cs) = concat (map get_text cs)"

fun named :: "string list \<Rightarrow> node \<Rightarrow> bool" where
  "named names (Tag n as cs) = (n \<in> set names)"
| "named names _ = False"

fun attrs :: "node \<Rightarrow> (string \<times> string) list" where
  "attrs (Tag n as cs) = as"
| "attrs _ = []"

text \<open>\<open>tag.get(key)\<close>.\<close>

definition tag_get :: "node \<Rightarrow> string \<Rightarrow> string option" where
  "tag_get t k = map_of (attrs t) k"

text \<open>\<open>find_all\<close> with a matcher and an optional \<open>limit\<close>; \<open>find\<close> is \<open>find_all\<close> with
  \<open>limit=1\<close>.\<close>

definition find_all_where :: "node \<Rightarrow> (node \<Rightarrow> bool) \<Rightarrow> nat option \<Rightarrow> node list" where
  "find_all_where soup m limit =
     (let ms = filter m (descendants soup)
      in case limit of None \<Rightarrow> ms | Some k \<Rightarrow> take k ms)"

definition find_where :: "node \<Rightarrow> (node \<Rightarrow> bool) \<Rightarrow> node option" where
  "find_where soup m = (case find_all_where soup m (Some 1) of [] \<Rightarrow> None | t # _ \<Rightarrow> Some t)"

definition find_all :: "node \<Rightarrow> string list \<Rightarrow> nat option \<Rightarrow> node list" where
  "find_all soup names limit = find_all_where soup (named names) limit"

definition find :: "node \<Rightarrow> string \<Rightarrow> node option" where
  "find soup name = find_where soup (named [name])"

text \<open>\<open>soup.find(name, attrs={k: v})\<close> and \<open>soup.find_all(name, href=True)\<close>.\<close>

definition find_attrs :: "node \<Rightarrow> string \<Rightarrow> string \<Rightarrow> string \<Rightarrow> node option" where
  "find_attrs soup name k v = find_where soup (\<lambda>t. named [name] t \<and> tag_get t k = Some v)"

definition find_all_with :: "node \<Rightarrow> string \<Rightarrow> string \<Rightarrow> node list" where
  "find_all_with soup name k = find_all_where soup (\<lambda>t. named [name] t \<and> tag_get t k \<noteq> None) None"

text \<open>\<open>for s in soup(names): s.decompose()\<close>: every tag with one of the names is removed,
  with all it contains.\<close>

fun decompose_all :: "string list \<Rightarrow> node \<Rightarrow> node" where
  "decompose_all names (Tag n as cs) =
     Tag n as (map (decompose_all names) (filter (\<lambda>c. \<not> named names c) cs))"
| "decompose_all names (NavigableString s) = NavigableString s"
| "decompose_all names (Comment s) = Comment s"

section \<open>Text extraction (scraper.py)\<close>

text \<open>The loop over the candidates of \<open>extract_main_article_text\<close>, with its two
  variables \<open>best\<close> (\<open>None\<close> at first) and \<open>best_len\<close>.\<close>

fun best_candidate :: "node list \<Rightarrow> string option \<times> nat \<Rightarrow> string option \<times> nat" where
  "best_candidate [] (best, best_len) = (best, best_len)"
| "best_candidate (c # cs) (best, best_len) =
     (let text = strip (get_text c); ln = length text
      in if ln > best_len then best_candidate cs (Some text, ln)
         else best_candidate cs (best, best_len))"

definition extract_main_article_text :: "node \<Rightarrow> string" where
  "extract_main_article_text soup =
     (case find soup ''article'' of
        Some article \<Rightarrow> get_text article
      | None \<Rightarrow>
     (case find soup ''main'' of
        Some main \<Rightarrow> get_text main
      | None \<Rightarrow>
     (let candidates = find_all soup [''div'', ''section'', ''article'', ''body''] (Some 40);
          (best, best_len) = best_candidate candidates (None, 0)
      in if best_len > 200 then (case best of Some text \<Rightarrow> text | None \<Rightarrow> [])
         else
          (let ps = find_all soup [''p''] None;
               texts = map (\<lambda>p. strip (get_text p)) (filter (\<lambda>p. strip (get_text p) \<noteq> []) ps)
           in if ps \<noteq> [] \<and> texts \<noteq> [] then concat (take 50 texts)
              else get_text soup))))"

definition extract_text_from_html :: "world \<Rightarrow> string \<Rightarrow> string \<times> string" where
  "extract_text_from_html w html =
     (let soup = decompose_all [''script'', ''style'', ''noscript''] (parse_html w html);
          full_text = get_text soup;
          article_text = extract_main_article_text soup
      in (strip full_text, strip article_text))"

text \<open>
  The block candidates are the first 40 \<open>div\<close>, \<open>section\<close>, \<open>article\<close> and \<open>body\<close>
  elements in document order. The code measures and returns their stripped texts, and
  takes the stripped texts of the \<open>p\<close> elements, leaving out those that are empty after
  the strip.
\<close>

definition block_candidates :: "node \<Rightarrow> node list" where
  "block_candidates soup =
     take 40 (filter (named [''div'', ''section'', ''article'', ''body'']) (descendants soup))"

definition stripped_paragraph_texts :: "node \<Rightarrow> string list" where
  "stripped_paragraph_texts soup =
     filter (\<lambda>t. t \<noteq> [])
       (map (\<lambda>p. strip (get_text p)) (filter (named [''p'']) (descendants soup)))"

text \<open>
  The article text in the words of the specification, which name no strip: the text of
  the first \<open>article\<close>; else of the first \<open>main\<close>; else of the candidate with the
  largest text (the first of them), if that text is longer than 200 characters; else the
  concatenation of the first 50 non-empty \<open>p\<close> texts; else the text of the page.
\<close>

definition paragraph_texts :: "node \<Rightarrow> string list" where
  "paragraph_texts soup =
     filter (\<lambda>t. t \<noteq> []) (map get_text (filter (named [''p'']) (descendants soup)))"

fun largest_text :: "node list \<Rightarrow> string \<Rightarrow> string" where
  "largest_text [] best = best"
| "largest_text (c # cs) best =
     largest_text cs (if length (get_text c) > length best then get_text c else best)"

definition article_text_as_specified :: "node \<Rightarrow> string" where
  "article_text_as_specified soup =
     (case find soup ''article'' of
        Some article \<Rightarrow> get_text article
      | None \<Rightarrow>
     (case find soup ''main'' of
        Some main \<Rightarrow> get_text main
      | None \<Rightarrow>
          if length (largest_text (block_candidates soup) []) > 200
          then largest_text (block_candidates soup) []
          else if paragraph_texts soup \<noteq> [] then concat (take 50 (paragraph_texts soup))
          else get_text soup))"

text \<open>\<open>extract_text_from_pdf\<close> reads the file at the path; any exception of the
  extraction gives the empty text.\<close>

definition extract_text_from_pdf :: "world \<Rightarrow> crawl_state \<Rightarrow> string \<Rightarrow> string" where
  "extract_text_from_pdf w st p =
     (case files st p of
        None \<Rightarrow> []
      | Some data \<Rightarrow> (case pdf_extract w data of None \<Rightarrow> [] | Some text \<Rightarrow> text))"

section \<open>URLs and links (scraper.py)\<close>

definition strip_prefix :: "string \<Rightarrow> string \<Rightarrow> string option" where
  "strip_prefix p s = (if prefix p s then Some (drop (length p) s) else None)"

text \<open>The regular expression \<open>([^/]+)/\<close>: a non-empty run without \<open>/\<close>, then \<open>/\<close>.\<close>

definition segment :: "string \<Rightarrow> (string \<times> string) option" where
  "segment s =
     (let seg = takeWhile (\<lambda>c. c \<noteq> CHR ''/'') s; rest = dropWhile (\<lambda>c. c \<noteq> CHR ''/'') s
      in if seg = [] \<or> rest = [] then None else Some (seg, tl rest))"

text \<open>The regular expression \<open>(.*)$\<close>: the dot matches no newline, the dollar matches at
  the end and before a newline that ends the string.\<close>

definition rest_of_line :: "string \<Rightarrow> string option" where
  "rest_of_line s =
     (if CHR 0x0A \<notin> set s then Some s
      else if s \<noteq> [] \<and> last s = CHR 0x0A \<and> CHR 0x0A \<notin> set (butlast s) then Some (butlast s)
      else None)"

text \<open>
  \<open>re.match(r"https?://github.com/([^/]+)/([^/]+)/blob/([^/]+)/(.*)$", url)\<close>: the groups
  user, repo, branch and path (the dot of \<open>github.com\<close> is unescaped and matches any one
  character but the newline).
\<close>

definition match_github_blob :: "string \<Rightarrow> (string \<times> string \<times> string \<times> string) option" where
  "match_github_blob u =
     (case strip_prefix ''http'' u of None \<Rightarrow> None | Some r0 \<Rightarrow>
      (case strip_prefix ''://github''
              (case strip_prefix ''s'' r0 of Some r \<Rightarrow> r | None \<Rightarrow> r0) of None \<Rightarrow> None | Some r2 \<Rightarrow>
      (case r2 of [] \<Rightarrow> None | c # r3 \<Rightarrow>
      (if c = CHR 0x0A then None else
      (case strip_prefix ''com/'' r3 of None \<Rightarrow> None | Some r4 \<Rightarrow>
      (case segment r4 of None \<Rightarrow> None | Some (user, r5) \<Rightarrow>
      (case segment r5 of None \<Rightarrow> None | Some (repo, r6) \<Rightarrow>
      (case strip_prefix ''blob/'' r6 of None \<Rightarrow> None | Some r7 \<Rightarrow>
      (case segment r7 of None \<Rightarrow> None | Some (branch, r8) \<Rightarrow>
      (case rest_of_line r8 of None \<Rightarrow> None | Some p \<Rightarrow> Some (user, repo, branch, p)))))))))))"

definition github_blob_to_raw :: "string \<Rightarrow> string" where
  "github_blob_to_raw u =
     (case match_github_blob u of
        Some (user, repo, branch, p) \<Rightarrow>
          ''https://raw.githubusercontent.com/'' @ user @ ''/'' @ repo @ ''/'' @ branch @ ''/'' @ p
      | None \<Rightarrow> u)"

text \<open>The rewrite \<open>process_url\<close> applies to its URL before the fetch.\<close>

definition rewrite_url :: "string \<Rightarrow> string" where
  "rewrite_url u =
     (if contains ''github.com'' u \<and> contains ''/blob/'' u then github_blob_to_raw u else u)"

text \<open>The character class \<open>[0-9A-Za-z._-]\<close>.\<close>

definition filename_char :: "char \<Rightarrow> bool" where
  "filename_char c = (let n = code_point c in
     (48 \<le> n \<and> n \<le> 57) \<or> (65 \<le> n \<and> n \<le> 90) \<or> (97 \<le> n \<and> n \<le> 122) \<or>
     c = CHR ''.'' \<or> c = CHR ''_'' \<or> c = CHR ''-'')"

definition make_filename_from_url :: "world \<Rightarrow> string \<Rightarrow> string" where
  "make_filename_from_url w u =
     (let parsed = urlparse w u;
          name = netloc parsed @ path parsed;
          name = (if query parsed \<noteq> [] then name @ ''_'' @ query parsed else name);
          name = map (\<lambda>c. if filename_char c then c else CHR ''_'') name
      in if length name > 200 then take 200 name else name)"

text \<open>De-duplication that keeps the first occurrence, with the set \<open>seen\<close>.\<close>

fun dedup :: "string set \<Rightarrow> string list \<Rightarrow> string list" where
  "dedup seen [] = []"
| "dedup seen (u # us) = (if u \<in> seen then dedup seen us else u # dedup (insert u seen) us)"

definition discover_links :: "world \<Rightarrow> string \<Rightarrow> string \<Rightarrow> string list" where
  "discover_links w html base_url =
     (let soup = parse_html w html;
          hrefs = map (\<lambda>a. strip (case tag_get a ''href'' of Some h \<Rightarrow> h | None \<Rightarrow> []))
                    (find_all_with soup ''a'' ''href'');
          found = map (urljoin w base_url)
                    (filter (\<lambda>href. \<not> (startswith href ''#'' \<or>
                                         startswith (lower href) ''javascript:'')) hrefs)
      in dedup {} found)"

definition FOLLOW_SAME_DOMAIN_ONLY :: bool where
  "FOLLOW_SAME_DOMAIN_ONLY = False"

definition within_domain :: "world \<Rightarrow> string \<Rightarrow> string \<Rightarrow> bool" where
  "within_domain w root_u candidate =
     (if \<not> FOLLOW_SAME_DOMAIN_ONLY then True
      else netloc (urlparse w root_u) = netloc (urlparse w candidate))"

section \<open>The recursive crawl (scraper.py)\<close>

definition DOWNLOAD_DIR :: string where
  "DOWNLOAD_DIR = ''downloads''"

definition EXTRACT_DIR :: string where
  "EXTRACT_DIR = ''extracted''"

definition JSON_OUT_DIR :: string where
  "JSON_OUT_DIR = ''json_output''"

text \<open>\<open>os.path.join\<close> of two parts and \<open>os.path.basename\<close>.\<close>

definition path_join :: "string \<Rightarrow> string \<Rightarrow> string" where
  "path_join a b =
     (if startswith b ''/'' then b
      else if a = [] \<or> endswith a ''/'' then a @ b
      else a @ ''/'' @ b)"

definition basename :: "string \<Rightarrow> string" where
  "basename p = rev (takeWhile (\<lambda>c. c \<noteq> CHR ''/'') (rev p))"

definition COMBINED_JSONL :: string where
  "COMBINED_JSONL = path_join JSON_OUT_DIR ''combined.jsonl''"

definition SLEEP_BETWEEN_REQUESTS :: rat where
  "SLEEP_BETWEEN_REQUESTS = 8 / 10"

definition FOLLOW_LINKS :: bool where
  "FOLLOW_LINKS = True"

definition MAX_CRAWL_DEPTH :: nat where
  "MAX_CRAWL_DEPTH = 2"

definition MAX_LINKS_PER_PAGE :: nat where
  "MAX_LINKS_PER_PAGE = 20"

text \<open>\<open>open(path, "w")\<close> followed by the write, and the same with mode \<open>"a"\<close>: an
  exception (\<open>Inl\<close>, with its message) leaves the files as they were.\<close>

definition write_file :: "world \<Rightarrow> string \<Rightarrow> string \<Rightarrow> crawl_state \<Rightarrow> string + crawl_state" where
  "write_file w p data st =
     (case write_error w p of
        Some e \<Rightarrow> Inl e
      | None \<Rightarrow> Inr (st\<lparr>files := (files st)(p \<mapsto> data)\<rparr>))"

definition append_file :: "world \<Rightarrow> string \<Rightarrow> string \<Rightarrow> crawl_state \<Rightarrow> string + crawl_state" where
  "append_file w p data st =
     (case write_error w p of
        Some e \<Rightarrow> Inl e
      | None \<Rightarrow>
          Inr (st\<lparr>files := (files st)(p \<mapsto> (case files st p of None \<Rightarrow> [] | Some old \<Rightarrow> old) @ data)\<rparr>))"

text \<open>The dict \<open>result\<close> as \<open>process_url\<close> first builds it; \<open>root_url or url\<close>.\<close>

definition new_result :: "string \<Rightarrow> string option \<Rightarrow> result" where
  "new_result u root_u =
     \<lparr>source_url = u,
      root_url = (case root_u of None \<Rightarrow> u | Some r \<Rightarrow> str_or r u),
      fetched_url = None, local_path = None, downloaded = False, content_type = None,
      status_code = None, title = None, published = None, full_text_path = None,
      article_text_path = None, article_text = None, full_text = None, error = None,
      discovered_links = [], children_count = None\<rparr>"

text \<open>
  The two branches of the \<open>try\<close> block. Each gives the exception that ended it, if any,
  the \<open>result\<close> as far as it was filled, and the state; the HTML branch also gives the
  links it found.
\<close>

definition with_suffix :: "string \<Rightarrow> string \<Rightarrow> string" where
  "with_suffix fname ext = (if \<not> endswith (lower fname) ext then fname @ ext else fname)"

definition process_pdf ::
  "world \<Rightarrow> response \<Rightarrow> result \<Rightarrow> crawl_state \<Rightarrow> string option \<times> result \<times> crawl_state" where
  "process_pdf w r res st =
     (let fname = with_suffix (make_filename_from_url w (resp_url r)) ''.pdf'';
          lp = path_join DOWNLOAD_DIR fname
      in case write_file w lp (resp_content r) st of
           Inl e \<Rightarrow> (Some e, res, st)
         | Inr st1 \<Rightarrow>
             (let res1 = res\<lparr>local_path := Some lp, downloaded := True\<rparr>;
                  text = extract_text_from_pdf w st1 lp;
                  txt_path = path_join EXTRACT_DIR (basename lp @ ''.txt'')
              in case write_file w txt_path text st1 of
                   Inl e \<Rightarrow> (Some e, res1, st1)
                 | Inr st2 \<Rightarrow>
                     (None, res1\<lparr>full_text_path := Some txt_path, full_text := Some text\<rparr>, st2)))"

text \<open>The metadata: the title, and the publication date from the first probe that gives
  one. A \<open>meta\<close> content that does not parse is kept raw and the loop goes on; a \<open>time\<close>
  tag's \<open>datetime\<close> that does not parse is skipped.\<close>

datatype probe = Meta string string | Time

definition published_probes :: "probe list" where
  "published_probes =
     [Meta ''property'' ''article:published_time'', Meta ''name'' ''date'',
      Meta ''name'' ''publication_date'', Meta ''name'' ''pubdate'', Time]"

definition truthy_attr :: "node \<Rightarrow> string \<Rightarrow> string option" where
  "truthy_attr t k = (case tag_get t k of Some v \<Rightarrow> if v = [] then None else Some v | None \<Rightarrow> None)"

fun find_published :: "world \<Rightarrow> node \<Rightarrow> probe list \<Rightarrow> string option \<Rightarrow> string option" where
  "find_published w soup [] cur = cur"
| "find_published w soup (Meta k v # ps) cur =
     (case find_attrs soup ''meta'' k v of
        None \<Rightarrow> find_published w soup ps cur
      | Some m \<Rightarrow>
          (case truthy_attr m ''content'' of
             None \<Rightarrow> find_published w soup ps cur
           | Some c \<Rightarrow>
               (case parse_date w c of
                  Some stamp \<Rightarrow> Some stamp
                | None \<Rightarrow> find_published w soup ps (Some c))))"
| "find_published w soup (Time # ps) cur =
     (case find soup ''time'' of
        None \<Rightarrow> find_published w soup ps cur
      | Some t \<Rightarrow>
          (case truthy_attr t ''datetime'' of
             Some d \<Rightarrow>
               (case parse_date w d of
                  Some stamp \<Rightarrow> Some stamp
                | None \<Rightarrow> find_published w soup ps cur)
           | None \<Rightarrow>
               if strip (get_text t) \<noteq> [] then Some (strip (get_text t))
               else find_published w soup ps cur))"

definition process_html ::
  "world \<Rightarrow> response \<Rightarrow> result \<Rightarrow> crawl_state \<Rightarrow>
   string option \<times> result \<times> string list \<times> crawl_state" where
  "process_html w r res st =
     (let html = resp_text r;
          fname = with_suffix (make_filename_from_url w (resp_url r)) ''.html'';
          lp = path_join DOWNLOAD_DIR fname
      in case write_file w lp html st of
           Inl e \<Rightarrow> (Some e, res, [], st)
         | Inr st1 \<Rightarrow>
      (let res1 = res\<lparr>local_path := Some lp, downloaded := True\<rparr>;
           (full, article) = extract_text_from_html w html;
           txt_path = path_join EXTRACT_DIR (basename lp @ ''.txt'')
       in case write_file w txt_path full st1 of
            Inl e \<Rightarrow> (Some e, res1, [], st1)
          | Inr st2 \<Rightarrow>
      (let res2 = res1\<lparr>full_text_path := Some txt_path, full_text := Some full\<rparr>;
           art_path = path_join EXTRACT_DIR (basename lp @ ''.article.txt'')
       in case write_file w art_path article st2 of
            Inl e \<Rightarrow> (Some e, res2, [], st2)
          | Inr st3 \<Rightarrow>
      (let res3 = res2\<lparr>article_text_path := Some art_path, article_text := Some article\<rparr>;
           soup = parse_html w html;
           res4 = (case find soup ''title'' of
                     Some t \<Rightarrow> res3\<lparr>title := Some (strip (get_text t))\<rparr>
                   | None \<Rightarrow> res3);
           res5 = res4\<lparr>published := find_published w soup published_probes (published res4)\<rparr>;
           links = discover_links w html (resp_url r)
       in (None, res5\<lparr>discovered_links := take MAX_LINKS_PER_PAGE links\<rparr>, links, st3)))))"

text \<open>What follows the \<open>try\<close> block: the exception, if any, becomes the record's \<open>error\<close>;
  the record is written as its own JSON file and appended to the combined file (the
  source appends \<open>json.dumps(result) + ''\<close>); a pause; the record is returned. These
  writes are outside the \<open>try\<close>: their exceptions leave \<open>process_url\<close>.\<close>

datatype 'a outcome = Raised string | Returned 'a

definition persist ::
  "world \<Rightarrow> string \<Rightarrow> string option \<Rightarrow> result \<Rightarrow> crawl_state \<Rightarrow> result option outcome \<times> crawl_state" where
  "persist w u exc res0 st =
     (let res = (case exc of None \<Rightarrow> res0 | Some e \<Rightarrow> res0\<lparr>error := Some e\<rparr>);
          base = make_filename_from_url w
                   (case fetched_url res of None \<Rightarrow> u | Some f \<Rightarrow> str_or f u);
          json_path = path_join JSON_OUT_DIR (base @ ''.json'')
      in case write_file w json_path (json_dump_indent w res) st of
           Inl e \<Rightarrow> (Raised e, st)
         | Inr st1 \<Rightarrow>
             (case append_file w COMBINED_JSONL (json_dumps w res @ []) st1 of
                Inl e \<Rightarrow> (Raised e, st1)
              | Inr st2 \<Rightarrow> (Returned (Some res), emit (Sleep SLEEP_BETWEEN_REQUESTS) st2)))"

definition skipped_extension :: "string \<Rightarrow> bool" where
  "skipped_extension link =
     list_ex (\<lambda>ext. endswith (lower link) ext) [''.jpg'', ''.png'', ''.zip'', ''.exe'']"

text \<open>
  \<open>process_url(url, root_url, depth, visited)\<close>, with the set \<open>visited\<close> in the state
  (\<open>visited=None\<close> is the empty set), and the loop over the links of a page
  (\<open>follow_links\<close>, with the number of children so far). A child that raises ends the
  loop: the exception is caught by the parent's \<open>except\<close>.
\<close>

function process_url ::
    "world \<Rightarrow> string \<Rightarrow> string option \<Rightarrow> nat \<Rightarrow> crawl_state \<Rightarrow> result option outcome \<times> crawl_state"
  and follow_links ::
    "world \<Rightarrow> string list \<Rightarrow> string \<Rightarrow> nat \<Rightarrow> nat \<Rightarrow> crawl_state \<Rightarrow> string option \<times> nat \<times> crawl_state"
  where
  "process_url w u root_u depth st =
     (if u \<in> visited st then (Returned None, st)
      else
       (let st0 = emit (Processing depth u) (st\<lparr>visited := insert u (visited st)\<rparr>);
            res0 = new_result u root_u;
            u' = rewrite_url u
        in case safe_get w u' st0 of
             (None, st1) \<Rightarrow> (Returned (Some (res0\<lparr>error := Some ''failed_to_fetch''\<rparr>)), st1)
           | (Some r, st1) \<Rightarrow>
        (let res1 = res0\<lparr>status_code := Some (resp_status_code r),
                         fetched_url := Some (resp_url r),
                         content_type := Some (lower (header_content_type r))\<rparr>
         in if is_pdf_response (Some r) u' then
              (case process_pdf w r res1 st1 of (exc, res2, st2) \<Rightarrow> persist w u' exc res2 st2)
            else
              (case process_html w r res1 st1 of
                 (Some e, res2, links, st2) \<Rightarrow> persist w u' (Some e) res2 st2
               | (None, res2, links, st2) \<Rightarrow>
                   if FOLLOW_LINKS \<and> depth < MAX_CRAWL_DEPTH then
                     (case follow_links w (take MAX_LINKS_PER_PAGE links) (root_url res2) depth 0 st2 of
                        (Some e, n, st3) \<Rightarrow> persist w u' (Some e) res2 st3
                      | (None, n, st3) \<Rightarrow>
                          persist w u' None (res2\<lparr>children_count := Some n\<rparr>) st3)
                   else persist w u' None res2 st2))))"
| "follow_links w [] root_u depth n st = (None, n, st)"
| "follow_links w (link # links) root_u depth n st =
     (if \<not> within_domain w root_u link then follow_links w links root_u depth n st
      else if skipped_extension link then follow_links w links root_u depth n st
      else
        (case process_url w link (Some root_u) (depth + 1) (emit (Sleep SLEEP_BETWEEN_REQUESTS) st) of
           (Raised e, st1) \<Rightarrow> (Some e, n, st1)
         | (Returned None, st1) \<Rightarrow> follow_links w links root_u depth n st1
         | (Returned (Some child), st1) \<Rightarrow> follow_links w links root_u depth (Suc n) st1))"
  by pat_completeness auto
termination
  by (relation "inv_image (less_than <*lex*> less_than)
        (\<lambda>x. case x of
           Inl (w, u, root_u, depth, st) \<Rightarrow> (MAX_CRAWL_DEPTH - depth, 0)
         | Inr (w, links, root_u, depth, n, st) \<Rightarrow> (MAX_CRAWL_DEPTH - Suc depth, Suc (length links)))")
     auto

text \<open>\<open>main(urls)\<close>: one visited set for all seeds, each processed at depth 0 with itself
  as root; an exception of a seed is logged and the next seed is taken. The result is
  the list \<open>all_results\<close>.\<close>

fun main_loop :: "world \<Rightarrow> string list \<Rightarrow> result list \<Rightarrow> crawl_state \<Rightarrow> result list \<times> crawl_state" where
  "main_loop w [] all_results st = (all_results, st)"
| "main_loop w (u # us) all_results st =
     (case process_url w u (Some u) 0 st of
        (Raised e, st1) \<Rightarrow> main_loop w us all_results st1
      | (Returned None, st1) \<Rightarrow> main_loop w us all_results st1
      | (Returned (Some res), st1) \<Rightarrow> main_loop w us (all_results @ [res]) st1)"

definition initial_state :: "(string \<rightharpoonup> string) \<Rightarrow> crawl_state" where
  "initial_state fs = \<lparr>visited = {}, files = fs, trace = []\<rparr>"

definition main :: "world \<Rightarrow> string list \<Rightarrow> (string \<rightharpoonup> string) \<Rightarrow> result list \<times> crawl_state" where
  "main w urls fs = main_loop w urls [] (initial_state fs)"

section \<open>The page scraper (scrape.py)\<close>

definition BASE_OUTPUT_DIR :: string where
  "BASE_OUTPUT_DIR = ''legal_rag_data''"

text \<open>\<open>str(n)\<close> for a natural number, as the f-strings print it.\<close>

function str_of_nat :: "nat \<Rightarrow> string" where
  "str_of_nat n =
     (if n < 10 then [char_of (48 + n)] else str_of_nat (n div 10) @ [char_of (48 + n mod 10)])"
  by pat_completeness auto
termination
  by (relation "measure id") auto

text \<open>\<open>sep.join(parts)\<close>, the text nodes of a document, \<open>get_text(separator=sep)\<close> and
  \<open>str.splitlines\<close> (which also breaks at \<open>\r\<close>, \<open>\r\n\<close>, \<open>\v\<close>, \<open>\f\<close>, the separators
  \<open>0x1c\<close> to \<open>0x1e\<close> and \<open>0x85\<close>).\<close>

fun join :: "string \<Rightarrow> string list \<Rightarrow> string" where
  "join sep [] = []"
| "join sep [x] = x"
| "join sep (x # y # ys) = x @ sep @ join sep (y # ys)"

fun strings :: "node \<Rightarrow> string list" where
  "strings (NavigableString s) = [s]"
| "strings (Comment s) = []"
| "strings (Tag n as cs) = concat (map strings cs)"

definition get_text_sep :: "string \<Rightarrow> node \<Rightarrow> string" where
  "get_text_sep sep soup = join sep (strings soup)"

definition linebreak :: "char \<Rightarrow> bool" where
  "linebreak c = (let n = code_point c in (10 \<le> n \<and> n \<le> 13) \<or> (28 \<le> n \<and> n \<le> 30) \<or> n = 133)"

fun splitlines_from :: "string \<Rightarrow> string \<Rightarrow> string list" where
  "splitlines_from cur [] = (if cur = [] then [] else [cur])"
| "splitlines_from cur [c] = (if linebreak c then [cur] else [cur @ [c]])"
| "splitlines_from cur (c # d # cs) =
     (if c = CHR 0x0D \<and> d = CHR 0x0A then cur # splitlines_from [] cs
      else if linebreak c then cur # splitlines_from [] (d # cs)
      else splitlines_from (cur @ [c]) (d # cs))"

definition splitlines :: "string \<Rightarrow> string list" where
  "splitlines s = splitlines_from [] s"

definition html_to_text :: "world \<Rightarrow> string \<Rightarrow> string" where
  "html_to_text w html =
     (let soup = decompose_all [''script'', ''style'', ''noscript''] (parse_html w html);
          text = get_text_sep [CHR 0x0A] soup;
          lines = map strip (splitlines text);
          lines = filter (\<lambda>line. line \<noteq> []) lines
      in join [CHR 0x0A] lines)"

definition get_extension_from_content_type :: "world \<Rightarrow> string \<Rightarrow> string" where
  "get_extension_from_content_type w ct0 =
     (if ct0 = [] then ''.bin''
      else
       (let ct = lower (strip (takeWhile (\<lambda>c. c \<noteq> CHR '';'') ct0))
        in if contains ''html'' ct then ''.html''
           else if contains ''pdf'' ct then ''.pdf''
           else if contains ''json'' ct then ''.json''
           else (case guess_extension w ct of None \<Rightarrow> ''.bin'' | Some e \<Rightarrow> str_or e ''.bin'')))"

definition get_domain :: "world \<Rightarrow> string \<Rightarrow> string" where
  "get_domain w u = netloc (urlparse w u)"

definition replace_char :: "char \<Rightarrow> char \<Rightarrow> string \<Rightarrow> string" where
  "replace_char a b s = map (\<lambda>c. if c = a then b else c) s"

text \<open>\<open>get_binary_output_path\<close> (the directory is taken to exist or to be creatable).\<close>

definition get_binary_output_path :: "world \<Rightarrow> string \<Rightarrow> string \<Rightarrow> string \<Rightarrow> string" where
  "get_binary_output_path w brain u ext =
     (let parsed = urlparse w u;
          domain = str_or (replace_char CHR '':'' CHR ''_'' (netloc parsed)) ''unknown_domain'';
          path_part = str_or (path parsed) ''index'';
          path_part = (if endswith path_part ''/'' then path_part @ ''index'' else path_part);
          path_part = str_or (replace_char CHR ''/'' CHR ''_'' path_part) ''file'';
          filename = safe_filename (domain @ ''_'' @ path_part @ ext);
          out_dir = path_join (path_join BASE_OUTPUT_DIR brain) ''raw_files''
      in path_join out_dir filename)"

text \<open>\<open>append_jsonl_record\<close>: the record's JSON text and a newline, appended to the
  file of the brain.\<close>

definition append_jsonl_record ::
  "world \<Rightarrow> string \<Rightarrow> (string \<times> string) list \<Rightarrow> crawl_state \<Rightarrow> string + crawl_state" where
  "append_jsonl_record w brain record st =
     append_file w (path_join BASE_OUTPUT_DIR (brain @ ''.jsonl''))
       (json_dumps_dict w record @ [CHR 0x0A]) st"

definition now :: "world \<Rightarrow> crawl_state \<Rightarrow> string" where
  "now w st = utcnow w (length (trace st))"

text \<open>The test for HTML, as both \<open>scrape_url_for_brain\<close> and \<open>scrape_archive_item\<close>
  write it, on the lower-cased content-type header \<open>ct\<close>.\<close>

definition html_response :: "string \<Rightarrow> response \<Rightarrow> bool" where
  "html_response ct r =
     (contains ''text/html'' ct \<or> contains ''<html'' (lower (take 500 (resp_text r))))"

text \<open>The end of a function whose last statement may raise: the exception, if any, and
  the state.\<close>

definition finish :: "string + crawl_state \<Rightarrow> crawl_state \<Rightarrow> string option \<times> crawl_state" where
  "finish r st = (case r of Inl e \<Rightarrow> (Some e, st) | Inr st' \<Rightarrow> (None, st'))"

text \<open>The \<open>try\<close> block that saves a binary body and appends its record: the exception and
  the state it was raised in, or the state after both.\<close>

definition save_binary ::
  "world \<Rightarrow> string \<Rightarrow> string \<Rightarrow> string \<Rightarrow> (string \<times> string) list \<Rightarrow> crawl_state \<Rightarrow>
   (string \<times> crawl_state) + crawl_state" where
  "save_binary w brain out_path data record st =
     (case write_file w out_path data st of
        Inl e \<Rightarrow> Inl (e, st)
      | Inr st1 \<Rightarrow>
          (case append_jsonl_record w brain record st1 of
             Inl e \<Rightarrow> Inl (e, st1)
           | Inr st2 \<Rightarrow> Inr st2))"

text \<open>\<open>scrape_url_for_brain\<close> for a URL that is not an archive search (the lines after
  the first \<open>if\<close>).\<close>

definition scrape_page :: "world \<Rightarrow> string \<Rightarrow> string \<Rightarrow> crawl_state \<Rightarrow> string option \<times> crawl_state" where
  "scrape_page w brain u st =
     (case fetch w u st of
        (None, st1) \<Rightarrow>
          finish (append_jsonl_record w brain
            [(''brain'', brain), (''url'', u), (''domain'', get_domain w u),
             (''status'', ''error''), (''error'', ''request_failed''),
             (''fetched_at'', now w st1)] st1) st1
      | (Some r, st1) \<Rightarrow>
          (let fetched_at = now w st1;
               ct = lower (header_content_type r);
               domain = get_domain w u
           in if html_response ct r then
                finish (append_jsonl_record w brain
                  [(''brain'', brain), (''url'', u), (''domain'', domain), (''status'', ''ok''),
                   (''type'', ''html''), (''content_type_header'', ct),
                   (''fetched_at'', fetched_at), (''text'', html_to_text w (resp_text r))] st1) st1
              else
               (let ext = get_extension_from_content_type w ct;
                    out_path = get_binary_output_path w brain u ext
                in case save_binary w brain out_path (resp_content r)
                          [(''brain'', brain), (''url'', u), (''domain'', domain),
                           (''status'', ''ok''), (''type'', ''binary''),
                           (''content_type_header'', ct), (''fetched_at'', fetched_at),
                           (''file_path'', out_path)] st1 of
                     Inr st2 \<Rightarrow> (None, st2)
                   | Inl (e, st2) \<Rightarrow>
                       finish (append_jsonl_record w brain
                         [(''brain'', brain), (''url'', u), (''domain'', domain),
                          (''status'', ''error''), (''error'', ''save_binary_failed: '' @ e),
                          (''content_type_header'', ct), (''fetched_at'', fetched_at)] st2) st2)))"

section \<open>The archive search (scrape.py)\<close>

definition is_archive_search :: "world \<Rightarrow> string \<Rightarrow> bool" where
  "is_archive_search w u =
     (netloc (urlparse w u) = ''archive.org'' \<and> path (urlparse w u) = ''/search'')"

text \<open>The links of an item page to files, and the loop over them (sorted).\<close>

definition file_links :: "world \<Rightarrow> string \<Rightarrow> node \<Rightarrow> string list" where
  "file_links w item_url soup =
     sorted_list_of_set (set
       (map (\<lambda>a. urljoin w item_url (case tag_get a ''href'' of Some h \<Rightarrow> h | None \<Rightarrow> []))
         (filter (\<lambda>a. list_ex (endswith (lower (case tag_get a ''href'' of Some h \<Rightarrow> h | None \<Rightarrow> [])))
                         [''.pdf'', ''.txt'', ''.doc'', ''.docx''])
            (find_all_with soup ''a'' ''href''))))"

fun scrape_files ::
  "world \<Rightarrow> string \<Rightarrow> string \<Rightarrow> string \<Rightarrow> string list \<Rightarrow> crawl_state \<Rightarrow> string option \<times> crawl_state" where
  "scrape_files w brain item_url ts [] st = (None, st)"
| "scrape_files w brain item_url ts (file_url # rest) st =
     (case fetch w file_url st of
        (None, st1) \<Rightarrow>
          (case append_jsonl_record w brain
                  [(''brain'', brain), (''url'', file_url), (''domain'', get_domain w file_url),
                   (''status'', ''error''), (''error'', ''file_request_failed''),
                   (''fetched_at'', ts), (''parent_item'', item_url)] st1 of
             Inl e \<Rightarrow> (Some e, st1)
           | Inr st2 \<Rightarrow> scrape_files w brain item_url ts rest st2)
      | (Some fr, st1) \<Rightarrow>
          (let file_ct = lower (header_content_type fr);
               ext = get_extension_from_content_type w file_ct;
               out_path = get_binary_output_path w brain file_url ext
           in case save_binary w brain out_path (resp_content fr)
                     [(''brain'', brain), (''url'', file_url), (''domain'', get_domain w file_url),
                      (''status'', ''ok''), (''type'', ''binary''),
                      (''content_type_header'', file_ct), (''fetched_at'', ts),
                      (''file_path'', out_path), (''parent_item'', item_url),
                      (''source'', ''archive_item_file'')] st1 of
                Inr st2 \<Rightarrow> scrape_files w brain item_url ts rest st2
              | Inl (e, st2) \<Rightarrow>
                  (case append_jsonl_record w brain
                          [(''brain'', brain), (''url'', file_url),
                           (''domain'', get_domain w file_url), (''status'', ''error''),
                           (''error'', ''save_file_failed: '' @ e),
                           (''content_type_header'', file_ct), (''fetched_at'', ts),
                           (''parent_item'', item_url)] st2 of
                     Inl e' \<Rightarrow> (Some e', st2)
                   | Inr st3 \<Rightarrow> scrape_files w brain item_url ts rest st3)))"

text \<open>\<open>fetched_at or (datetime.utcnow().isoformat() + "Z")\<close>.\<close>

definition stamp_or_now :: "string option \<Rightarrow> world \<Rightarrow> crawl_state \<Rightarrow> string" where
  "stamp_or_now fetched_at w st =
     (case fetched_at of None \<Rightarrow> now w st | Some t \<Rightarrow> str_or t (now w st))"

definition scrape_archive_item ::
  "world \<Rightarrow> string \<Rightarrow> string \<Rightarrow> string option \<Rightarrow> crawl_state \<Rightarrow> string option \<times> crawl_state" where
  "scrape_archive_item w brain item_url fetched_at st =
     (case fetch w item_url (emit (Item item_url) st) of
        (None, st1) \<Rightarrow>
          finish (append_jsonl_record w brain
            [(''brain'', brain), (''url'', item_url), (''domain'', get_domain w item_url),
             (''status'', ''error''), (''error'', ''item_request_failed''),
             (''fetched_at'', stamp_or_now fetched_at w st1)] st1) st1
      | (Some r, st1) \<Rightarrow>
          (let ct = lower (header_content_type r);
               domain = get_domain w item_url;
               ts = stamp_or_now fetched_at w st1
           in if html_response ct r then
                (case append_jsonl_record w brain
                        [(''brain'', brain), (''url'', item_url), (''domain'', domain),
                         (''status'', ''ok''), (''type'', ''html''), (''content_type_header'', ct),
                         (''fetched_at'', ts), (''text'', html_to_text w (resp_text r)),
                         (''source'', ''archive_item_page'')] st1 of
                   Inl e \<Rightarrow> (Some e, st1)
                 | Inr st2 \<Rightarrow>
                     scrape_files w brain item_url ts
                       (file_links w item_url (parse_html w (resp_text r))) st2)
              else
               (let ext = get_extension_from_content_type w ct;
                    out_path = get_binary_output_path w brain item_url ext
                in case save_binary w brain out_path (resp_content r)
                          [(''brain'', brain), (''url'', item_url), (''domain'', domain),
                           (''status'', ''ok''), (''type'', ''binary''),
                           (''content_type_header'', ct), (''fetched_at'', ts),
                           (''file_path'', out_path), (''source'', ''archive_item_raw'')] st1 of
                     Inr st2 \<Rightarrow> (None, st2)
                   | Inl (e, st2) \<Rightarrow>
                       finish (append_jsonl_record w brain
                         [(''brain'', brain), (''url'', item_url), (''domain'', domain),
                          (''status'', ''error''), (''error'', ''save_item_failed: '' @ e),
                          (''content_type_header'', ct), (''fetched_at'', ts),
                          (''source'', ''archive_item_raw'')] st2) st2)))"

text \<open>The item links of a search page: the \<open>href\<close>s that start with \<open>/details/\<close>, joined
  to \<open>https://archive.org\<close>, as a sorted list without repetitions
  (\<open>sorted(item_links)\<close>).\<close>

definition item_links :: "world \<Rightarrow> node \<Rightarrow> string list" where
  "item_links w soup =
     sorted_list_of_set (set
       (map (\<lambda>a. urljoin w ''https://archive.org'' (case tag_get a ''href'' of Some h \<Rightarrow> h | None \<Rightarrow> []))
         (filter (\<lambda>a. startswith (case tag_get a ''href'' of Some h \<Rightarrow> h | None \<Rightarrow> []) ''/details/'')
            (find_all_with soup ''a'' ''href''))))"

text \<open>The variables of the search loop: \<open>page\<close>, \<open>scraped_items\<close>, \<open>seen_items\<close>.\<close>

record cursor =
  page :: nat
  scraped_items :: int
  seen_items :: "string set"

text \<open>The inner loop \<open>for item_url in sorted(item_links)\<close>.\<close>

fun scrape_items ::
  "world \<Rightarrow> string \<Rightarrow> string \<Rightarrow> int \<Rightarrow> rat \<Rightarrow> string list \<Rightarrow> cursor \<Rightarrow> crawl_state \<Rightarrow>
   string option \<times> cursor \<times> crawl_state" where
  "scrape_items w brain fetched_at max_items delay [] cur st = (None, cur, st)"
| "scrape_items w brain fetched_at max_items delay (item_url # rest) cur st =
     (if scraped_items cur \<ge> max_items then (None, cur, st)
      else if item_url \<in> seen_items cur then
        scrape_items w brain fetched_at max_items delay rest cur st
      else
        (let cur1 = cur\<lparr>seen_items := insert item_url (seen_items cur),
                        scraped_items := scraped_items cur + 1\<rparr>
         in case scrape_archive_item w brain item_url (Some fetched_at) st of
              (Some e, st1) \<Rightarrow> (Some e, cur1, st1)
            | (None, st1) \<Rightarrow>
                scrape_items w brain fetched_at max_items delay rest cur1 (emit (Sleep delay) st1)))"

definition page_url :: "string \<Rightarrow> string \<Rightarrow> nat \<Rightarrow> string" where
  "page_url base_root base_query n =
     (if base_query \<noteq> [] then base_root @ ''?'' @ base_query @ ''&page='' @ str_of_nat n
      else base_root @ ''?page='' @ str_of_nat n)"

text \<open>
  One round of the loop \<open>while scraped_items < max_items\<close>: either the loop ends
  (\<open>Inl\<close>: the exception that left it, if any, the variables and the state), or it
  goes on with the next page (\<open>Inr\<close>).
\<close>

definition search_round ::
  "world \<Rightarrow> string \<Rightarrow> string \<Rightarrow> string \<Rightarrow> string \<Rightarrow> int \<Rightarrow> rat \<Rightarrow> cursor \<Rightarrow> crawl_state \<Rightarrow>
   (string option \<times> cursor \<times> crawl_state) + (cursor \<times> crawl_state)" where
  "search_round w brain base_root base_query fetched_at max_items delay cur st =
     (if scraped_items cur < max_items then
        (case fetch w (page_url base_root base_query (page cur))
                (emit (Page (page cur) (page_url base_root base_query (page cur))) st) of
           (None, st1) \<Rightarrow> Inl (None, cur, st1)
         | (Some r, st1) \<Rightarrow>
             if item_links w (parse_html w (resp_text r)) = [] then Inl (None, cur, st1)
             else
               (case scrape_items w brain fetched_at max_items delay
                       (item_links w (parse_html w (resp_text r))) cur st1 of
                  (Some e, cur1, st2) \<Rightarrow> Inl (Some e, cur1, st2)
                | (None, cur1, st2) \<Rightarrow>
                    Inr (cur1\<lparr>page := page cur1 + 1\<rparr>, emit (Sleep delay) st2)))
      else Inl (None, cur, st))"

text \<open>The loop need not end, so its result is an option: \<open>None\<close> when it runs forever.\<close>

partial_function (option) search_loop ::
  "world \<Rightarrow> string \<Rightarrow> string \<Rightarrow> string \<Rightarrow> string \<Rightarrow> int \<Rightarrow> rat \<Rightarrow> cursor \<Rightarrow> crawl_state \<Rightarrow>
   (string option \<times> cursor \<times> crawl_state) option" where
  "search_loop w brain base_root base_query fetched_at max_items delay cur st =
     (case search_round w brain base_root base_query fetched_at max_items delay cur st of
        Inl final \<Rightarrow> Some final
      | Inr (cur1, st1) \<Rightarrow>
          search_loop w brain base_root base_query fetched_at max_items delay cur1 st1)"

declare search_loop.simps [code]

text \<open>\<open>k\<close> rounds of the loop, from the variables and the state or from its end.\<close>

fun search_rounds ::
  "nat \<Rightarrow> world \<Rightarrow> string \<Rightarrow> string \<Rightarrow> string \<Rightarrow> string \<Rightarrow> int \<Rightarrow> rat \<Rightarrow>
   (string option \<times> cursor \<times> crawl_state) + (cursor \<times> crawl_state) \<Rightarrow>
   (string option \<times> cursor \<times> crawl_state) + (cursor \<times> crawl_state)" where
  "search_rounds 0 w brain base_root base_query fetched_at max_items delay x = x"
| "search_rounds (Suc k) w brain base_root base_query fetched_at max_items delay x =
     search_rounds k w brain base_root base_query fetched_at max_items delay
       (case x of
          Inl final \<Rightarrow> Inl final
        | Inr (cur, st) \<Rightarrow>
            search_round w brain base_root base_query fetched_at max_items delay cur st)"

definition scrape_archive_search ::
  "world \<Rightarrow> string \<Rightarrow> string \<Rightarrow> int \<Rightarrow> rat \<Rightarrow> crawl_state \<Rightarrow>
   (string option \<times> cursor \<times> crawl_state) option" where
  "scrape_archive_search w brain search_url max_items delay st =
     (let fetched_at = now w st;
          parsed = urlparse w search_url;
          base_query = query parsed;
          base_root = scheme parsed @ ''://'' @ netloc parsed @ path parsed
      in search_loop w brain base_root base_query fetched_at max_items delay
           \<lparr>page = 1, scraped_items = 0, seen_items = {}\<rparr> st)"

definition scrape_url_for_brain ::
  "world \<Rightarrow> string \<Rightarrow> string \<Rightarrow> crawl_state \<Rightarrow> (string option \<times> crawl_state) option" where
  "scrape_url_for_brain w brain u st =
     (if is_archive_search w u then
        map_option (\<lambda>(exc, cur, st'). (exc, st')) (scrape_archive_search w brain u 50 (3 / 2) st)
      else Some (scrape_page w brain u st))"

text \<open>The record after a successful fetch, before the \<open>try\<close> block.\<close>

definition fetched_result :: "string \<Rightarrow> string option \<Rightarrow> response \<Rightarrow> result" where
  "fetched_result u root_u r =
     new_result u root_u\<lparr>status_code := Some (resp_status_code r),
                         fetched_url := Some (resp_url r),
                         content_type := Some (lower (header_content_type r))\<rparr>"

section \<open>Reading a trace\<close>

text \<open>The tasks a trace shows (depth and URL of every \<open>Processing\<close> line), the URLs
  processed, and the URLs requested.\<close>

fun tasks :: "event list \<Rightarrow> (nat \<times> string) list" where
  "tasks [] = []"
| "tasks (Processing d u # es) = (d, u) # tasks es"
| "tasks (Get u # es) = tasks es"
| "tasks (Sleep x # es) = tasks es"
| "tasks (Page n u # es) = tasks es"
| "tasks (Item u # es) = tasks es"

definition processed :: "event list \<Rightarrow> string list" where
  "processed es = map snd (tasks es)"

fun gets :: "event list \<Rightarrow> string list" where
  "gets [] = []"
| "gets (Get u # es) = u # gets es"
| "gets (Processing d u # es) = gets es"
| "gets (Sleep x # es) = gets es"
| "gets (Page n u # es) = gets es"
| "gets (Item u # es) = gets es"

text \<open>The search pages a trace shows, and the items.\<close>

fun pages_fetched :: "event list \<Rightarrow> (nat \<times> string) list" where
  "pages_fetched [] = []"
| "pages_fetched (Page n u # es) = (n, u) # pages_fetched es"
| "pages_fetched (e # es) = pages_fetched es"

fun items_scraped :: "event list \<Rightarrow> string list" where
  "items_scraped [] = []"
| "items_scraped (Item u # es) = u # items_scraped es"
| "items_scraped (e # es) = items_scraped es"

text \<open>The state in which \<open>process_url\<close> issues its fetch: the URL is in \<open>visited\<close> and
  the log line is written.\<close>

definition claimed :: "nat \<Rightarrow> string \<Rightarrow> crawl_state \<Rightarrow> crawl_state" where
  "claimed d u st = emit (Processing d u) (st\<lparr>visited := insert u (visited st)\<rparr>)"

text \<open>
  A list of tasks is a forest at depth \<open>d\<close> when it lists, one after the other and each
  in the order of the calls, trees of tasks whose roots are at depth \<open>d\<close> and in which
  the children of a task are at the depth of the task plus one.
\<close>

inductive forest :: "nat \<Rightarrow> (nat \<times> string) list \<Rightarrow> bool" where
  empty: "forest d []"
| tree: "forest (Suc d) kids \<Longrightarrow> forest d rest \<Longrightarrow> forest d ((d, u) # kids @ rest)"




section \<open>Example environments\<close>

text \<open>
  Concrete environments on which the model is run: a URL parser and joiner for plain
  \<open>scheme://host/path?query\<close> URLs, an HTML parser given as a table of pages, a file
  system on which every write succeeds, a JSON rendering of the record's first key
  (and of a dict of strings, with a comma after every entry), and a clock that stands
  still.
\<close>

definition example_urlparse :: "string \<Rightarrow> parsed_url" where
  "example_urlparse u =
     (let has_scheme = contains ''://'' u;
          sch = (if has_scheme then takeWhile (\<lambda>c. c \<noteq> CHR '':'') u else []);
          r = (if has_scheme then drop 3 (dropWhile (\<lambda>c. c \<noteq> CHR '':'') u) else u);
          nl = (if has_scheme
                then takeWhile (\<lambda>c. c \<notin> {CHR ''/'', CHR ''?'', CHR ''#''}) r else []);
          r2 = drop (length nl) r;
          pa = takeWhile (\<lambda>c. c \<notin> {CHR ''?'', CHR ''#''}) r2;
          r3 = drop (length pa) r2;
          qu = (case r3 of [] \<Rightarrow> []
                | c # q \<Rightarrow> if c = CHR ''?'' then takeWhile (\<lambda>c. c \<noteq> CHR ''#'') q else [])
      in \<lparr>scheme = sch, netloc = nl, path = pa, query = qu\<rparr>)"

definition example_urljoin :: "string \<Rightarrow> string \<Rightarrow> string" where
  "example_urljoin base href =
     (if contains ''://'' href then href
      else scheme (example_urlparse base) @ ''://'' @ netloc (example_urlparse base) @
           (if startswith href ''/'' then href else ''/'' @ href))"

definition example_parse_html :: "(string \<times> node) list \<Rightarrow> string \<Rightarrow> node" where
  "example_parse_html pages html =
     (case map_of pages html of
        Some soup \<Rightarrow> soup
      | None \<Rightarrow> Tag ''[document]'' [] [NavigableString html])"

definition example_world :: "(nat \<Rightarrow> string \<Rightarrow> get_outcome) \<Rightarrow> (string \<times> node) list \<Rightarrow> world" where
  "example_world net pages =
     \<lparr>http_get = net, write_error = (\<lambda>p. None), parse_html = example_parse_html pages,
      pdf_extract = (\<lambda>data. Some data), parse_date = (\<lambda>s. None),
      urlparse = example_urlparse, urljoin = example_urljoin,
      json_dumps = (\<lambda>r. ''{\"source_url\": \"'' @ source_url r @ ''\"}''),
      json_dump_indent = (\<lambda>r. ''{\<newline>  \"source_url\": \"'' @ source_url r @ ''\"\<newline>}''),
      json_dumps_dict =
        (\<lambda>kvs. ''{'' @ concat (map (\<lambda>(k, v). ''\"'' @ k @ ''\": \"'' @ v @ ''\", '') kvs) @ ''}''),
      guess_extension = (\<lambda>ct. if ct = ''text/plain'' then Some ''.txt'' else None),
      utcnow = (\<lambda>n. ''2025-01-01T00:00:00Z'')\<rparr>"

definition example_response :: "nat \<Rightarrow> string \<Rightarrow> string \<Rightarrow> string \<Rightarrow> response" where
  "example_response code final_url ct body =
     \<lparr>resp_status_code = code, resp_url = final_url, resp_content_type = Some ct,
      resp_content = body, resp_text = body\<rparr>"

text \<open>Networks: one that is down, one that answers 304 to everything, one whose first
  two requests time out.\<close>

definition net_down :: "nat \<Rightarrow> string \<Rightarrow> get_outcome" where
  "net_down n u = Raises ''connection refused''"

definition net_not_modified :: "nat \<Rightarrow> string \<Rightarrow> get_outcome" where
  "net_not_modified n u = Responds (example_response 304 u ''text/html'' [])"

definition net_flaky :: "nat \<Rightarrow> string \<Rightarrow> get_outcome" where
  "net_flaky n u =
     (if n < 2 then Raises ''timed out'' else Responds (example_response 200 u ''text/html'' ''ok''))"


definition page_with_links :: "string list \<Rightarrow> node" where
  "page_with_links hrefs =
     Tag ''[document]'' [] (map (\<lambda>h. Tag ''a'' [(''href'', h)] [NavigableString h]) hrefs)"


definition github_pages :: "(string \<times> node) list" where
  "github_pages =
     [(''http://a/'', page_with_links
         [''https://github.com/u/r/blob/main/f.txt'',
          ''https://raw.githubusercontent.com/u/r/main/f.txt''])]"

text \<open>A search whose second page repeats an item of the first, whose third page has a
  new item and whose fourth page has no item link; and a search that shows the same
  item on every page.\<close>

definition search_pages :: "(string \<times> node) list" where
  "search_pages =
     [(''https://archive.org/search?query=nda&page=1'',
         page_with_links [''/details/b'', ''/about'', ''/details/a'']),
      (''https://archive.org/search?query=nda&page=2'', page_with_links [''/details/a'']),
      (''https://archive.org/search?query=nda&page=3'', page_with_links [''/details/c''])]"

definition net_same_page :: "nat \<Rightarrow> string \<Rightarrow> get_outcome" where
  "net_same_page n u = Responds (example_response 200 u ''text/html'' ''same'')"

definition same_page :: "(string \<times> node) list" where
  "same_page = [(''same'', page_with_links [''/details/a''])]"

text \<open>A server that redirects every request to \<open>http://a/doc.pdf\<close> and labels the body
  as an octet stream; one that serves JSON; and the record of an outcome, if it has one.\<close>

definition net_redirect :: "nat \<Rightarrow> string \<Rightarrow> get_outcome" where
  "net_redirect n u =
     Responds (example_response 200 ''http://a/doc.pdf'' ''application/octet-stream'' ''%PDF-1.4'')"

definition net_json :: "nat \<Rightarrow> string \<Rightarrow> get_outcome" where
  "net_json n u = Responds (example_response 200 u ''application/json'' ''{}'')"

definition returned :: "result option outcome \<Rightarrow> result option" where
  "returned out = (case out of Returned x \<Rightarrow> x | Raised e \<Rightarrow> None)"

text \<open>A page of paragraphs only, one of them nested and one blank.\<close>

definition paragraphs_only :: node where
  "paragraphs_only =
     Tag ''[document]'' []
       [Tag ''p'' [] [NavigableString '' Hello ''],
        Tag ''p'' [] [NavigableString ''  ''],
        Tag ''span'' [] [Tag ''p'' [] [NavigableString ''World'', Comment ''x'']]]"

text \<open>A page whose only block has 204 characters of text, 200 of them after the strip.\<close>

definition padded_block :: node where
  "padded_block =
     Tag ''[document]'' []
       [Tag ''div'' [] [NavigableString (''  '' @ replicate 200 CHR ''x'' @ ''  '')],
        Tag ''p'' [] [NavigableString ''short'']]"

definition with_article :: node where
  "with_article =
     Tag ''[document]'' []
       [Tag ''div'' [] [Tag ''article'' [] [NavigableString ''first '', Tag ''b'' [] [NavigableString ''one'']]],
        Tag ''article'' [] [NavigableString ''second'']]"

section \<open>Properties of the file names\<close>




















section \<open>The article text\<close>

lemma best_candidate_keep:
  "\<forall>c \<in> set cs. length (strip (get_text c)) \<le> n \<Longrightarrow> best_candidate cs (b, n) = (b, n)"
  by (induction cs) (auto simp: Let_def)

lemma best_candidate_first_max:
  assumes "\<exists>c \<in> set cs. n < length (strip (get_text c))"
  shows "\<exists>pre c post. cs = pre @ c # post \<and>
           best_candidate cs (b, n) = (Some (strip (get_text c)), length (strip (get_text c))) \<and>
           n < length (strip (get_text c)) \<and>
           (\<forall>c' \<in> set pre. length (strip (get_text c')) < length (strip (get_text c))) \<and>
           (\<forall>c' \<in> set post. length (strip (get_text c')) \<le> length (strip (get_text c)))"
  using assms
proof (induction cs arbitrary: b n)
  case Nil
  then show ?case by simp
next
  case (Cons x xs)
  let ?l = "\<lambda>c. length (strip (get_text c))"
  show ?case
  proof (cases "n < ?l x")
    case True
    note big = this
    show ?thesis
    proof (cases "\<exists>c \<in> set xs. ?l x < ?l c")
      case True
      from Cons.IH [OF True, of "Some (strip (get_text x))"]
      obtain pre c post where h: "xs = pre @ c # post"
        "best_candidate xs (Some (strip (get_text x)), ?l x) = (Some (strip (get_text c)), ?l c)"
        "?l x < ?l c" "\<forall>c' \<in> set pre. ?l c' < ?l c" "\<forall>c' \<in> set post. ?l c' \<le> ?l c"
        by blast
      have "x # xs = (x # pre) @ c # post" using h(1) by simp
      moreover have "best_candidate (x # xs) (b, n) = (Some (strip (get_text c)), ?l c)"
        using big h(2) by (simp add: Let_def)
      moreover have "n < ?l c" using big h(3) by simp
      moreover have "\<forall>c' \<in> set (x # pre). ?l c' < ?l c" using h(3,4) by simp
      ultimately show ?thesis using h(5) by blast
    next
      case False
      then have le: "\<forall>c \<in> set xs. ?l c \<le> ?l x" by auto
      have "best_candidate (x # xs) (b, n) = (Some (strip (get_text x)), ?l x)"
        using big best_candidate_keep [OF le] by (simp add: Let_def)
      moreover have "x # xs = [] @ x # xs" by simp
      ultimately show ?thesis using big le
        by (metis empty_iff empty_set)
    qed
  next
    case False
    then have ex: "\<exists>c \<in> set xs. n < ?l c" using Cons.prems by auto
    from Cons.IH [OF ex, of b]
    obtain pre c post where h: "xs = pre @ c # post"
      "best_candidate xs (b, n) = (Some (strip (get_text c)), ?l c)"
      "n < ?l c" "\<forall>c' \<in> set pre. ?l c' < ?l c" "\<forall>c' \<in> set post. ?l c' \<le> ?l c"
      by blast
    have "x # xs = (x # pre) @ c # post" using h(1) by simp
    moreover have "best_candidate (x # xs) (b, n) = (Some (strip (get_text c)), ?l c)"
      using False h(2) by (simp add: Let_def)
    moreover have "\<forall>c' \<in> set (x # pre). ?l c' < ?l c" using False h(3,4) by auto
    ultimately show ?thesis using h(3,5) by blast
  qed
qed

lemma find_first:
  "find soup name = (case filter (named [name]) (descendants soup) of [] \<Rightarrow> None | t # _ \<Rightarrow> Some t)"
  by (cases "filter (named [name]) (descendants soup)")
     (simp_all add: find_def find_where_def find_all_where_def)

lemma candidates_bound: "length (find_all soup names (Some k)) \<le> k"
  by (simp add: find_all_def find_all_where_def)

lemma texts_eq: "map (\<lambda>p. strip (get_text p)) (filter (\<lambda>p. strip (get_text p) \<noteq> []) (find_all soup [''p''] None))
  = stripped_paragraph_texts soup"
  by (simp add: stripped_paragraph_texts_def find_all_def find_all_where_def filter_map comp_def)

lemma emat_article: "find soup ''article'' = Some a \<Longrightarrow> extract_main_article_text soup = get_text a"
  by (simp add: extract_main_article_text_def)

lemma emat_main: "find soup ''article'' = None \<Longrightarrow> find soup ''main'' = Some m \<Longrightarrow> extract_main_article_text soup = get_text m"
  by (simp add: extract_main_article_text_def)

lemma emat_block:
  assumes "find soup ''article'' = None" "find soup ''main'' = None"
   and "\<exists>c \<in> set (find_all soup [''div'', ''section'', ''article'', ''body''] (Some 40)). 200 < length (strip (get_text c))"
  shows "\<exists>pre c post. find_all soup [''div'', ''section'', ''article'', ''body''] (Some 40) = pre @ c # post \<and>
     extract_main_article_text soup = strip (get_text c) \<and> 200 < length (strip (get_text c)) \<and>
           (\<forall>c' \<in> set pre. length (strip (get_text c')) < length (strip (get_text c))) \<and>
           (\<forall>c' \<in> set post. length (strip (get_text c')) \<le> length (strip (get_text c)))"
proof -
  let ?cs = "find_all soup [''div'', ''section'', ''article'', ''body''] (Some 40)"
  have "\<exists>c \<in> set ?cs. 0 < length (strip (get_text c))"
    using assms(3) by (meson less_trans zero_less_numeral)
  from best_candidate_first_max [OF this, of None]
  obtain pre c post where h: "?cs = pre @ c # post"
     "best_candidate ?cs (None, 0) = (Some (strip (get_text c)), length (strip (get_text c)))"
     "\<forall>c' \<in> set pre. length (strip (get_text c')) < length (strip (get_text c))"
     "\<forall>c' \<in> set post. length (strip (get_text c')) \<le> length (strip (get_text c))"
    by blast
  have big: "200 < length (strip (get_text c))"
  proof -
    obtain d where d: "d \<in> set ?cs" "200 < length (strip (get_text d))" using assms(3) by blast
    then have "d \<in> set pre \<or> d = c \<or> d \<in> set post" using h(1) by auto
    then show ?thesis using d(2) h(3,4) by force
  qed
  have "extract_main_article_text soup = strip (get_text c)"
    using assms(1,2) h(2) big by (simp add: extract_main_article_text_def Let_def)
  then show ?thesis using h(1,3,4) big by blast
qed

lemma emat_small:
  assumes "find soup ''article'' = None" "find soup ''main'' = None"
   and "\<forall>c \<in> set (find_all soup [''div'', ''section'', ''article'', ''body''] (Some 40)). length (strip (get_text c)) \<le> 200"
  shows "extract_main_article_text soup =
     (if stripped_paragraph_texts soup \<noteq> [] then concat (take 50 (stripped_paragraph_texts soup)) else get_text soup)"
proof -
  let ?cs = "find_all soup [''div'', ''section'', ''article'', ''body''] (Some 40)"
  have "snd (best_candidate ?cs (None, 0)) \<le> 200"
  proof (cases "\<exists>c \<in> set ?cs. 0 < length (strip (get_text c))")
    case True
    from best_candidate_first_max [OF this, of None] assms(3) show ?thesis
      by fastforce
  next
    case False
    then have "\<forall>c \<in> set ?cs. length (strip (get_text c)) \<le> 0" by auto
    from best_candidate_keep [OF this] show ?thesis by simp
  qed
  then have nb: "\<not> 200 < snd (best_candidate ?cs (None, 0))" by simp
  have pe: "stripped_paragraph_texts soup \<noteq> [] \<Longrightarrow> find_all soup [''p''] None \<noteq> []"
    using texts_eq [of soup] by auto
  have fe: "(filter (\<lambda>p. strip (get_text p) \<noteq> []) (find_all soup [''p''] None) = []) =
            (stripped_paragraph_texts soup = [])"
    using texts_eq [of soup] by (metis map_is_Nil_conv)
  show ?thesis
    using assms(1,2) nb pe
    by (auto simp add: extract_main_article_text_def Let_def texts_eq fe split: prod.splits)
qed

lemma dropWhile_id: "s \<noteq> [] \<Longrightarrow> \<not> P (hd s) \<Longrightarrow> dropWhile P s = s"
  by (cases s) auto

lemma strip_id:
  assumes "s \<noteq> []" "\<not> isspace (hd s)" "\<not> isspace (last s)"
  shows "strip s = s"
proof -
  have "dropWhile isspace s = s" using assms(1,2) by (rule dropWhile_id)
  moreover have "dropWhile isspace (rev s) = rev s"
    using assms(1,3) by (intro dropWhile_id) (simp_all add: hd_rev)
  ultimately show ?thesis by (simp add: strip_def)
qed

lemma strip_ends:
  assumes "strip s \<noteq> []"
  shows "\<not> isspace (hd (strip s)) \<and> \<not> isspace (last (strip s))"
proof -
  let ?a = "dropWhile isspace s"
  let ?b = "dropWhile isspace (rev ?a)"
  have b: "?b \<noteq> []" using assms by (simp add: strip_def)
  have a: "?a \<noteq> []"
  proof
    assume e: "?a = []"
    have "?b = dropWhile isspace (rev [])" by (simp only: e)
    with b show False by (simp del: dropWhile_eq_Nil_conv)
  qed
  have l: "\<not> isspace (hd ?b)" using b hd_dropWhile by blast
  have "last (strip s) = hd ?b" using b by (simp add: strip_def last_rev)
  moreover have "hd (strip s) = hd ?a"
  proof -
    have "hd (strip s) = last ?b" using b by (simp add: strip_def hd_rev)
    also have "\<dots> = last (rev ?a)"
      by (metis b append_Nil2 last_appendR takeWhile_dropWhile_id)
    also have "\<dots> = hd ?a" using a by (simp add: last_rev)
    finally show ?thesis .
  qed
  moreover have "\<not> isspace (hd ?a)" using a hd_dropWhile by blast
  ultimately show ?thesis using l by simp
qed

lemma strip_concat_stripped:
  assumes "ts \<noteq> []" "\<forall>t \<in> set ts. t \<noteq> [] \<and> \<not> isspace (hd t) \<and> \<not> isspace (last t)"
  shows "strip (concat ts) = concat ts"
proof -
  have ne: "concat ts \<noteq> []" using assms by (cases ts) auto
  have h: "hd (concat ts) = hd (hd ts)" using assms by (cases ts) auto
  have "concat ts = concat (butlast ts @ [last ts])" using assms(1) by simp
  also have "\<dots> = concat (butlast ts) @ last ts"
    by (simp only: concat_append concat.simps append_Nil2)
  finally have "concat ts = concat (butlast ts) @ last ts" .
  moreover have "last ts \<noteq> []" using assms by simp
  ultimately have l: "last (concat ts) = last (last ts)" by simp
  have "\<not> isspace (hd (hd ts))" "\<not> isspace (last (last ts))" using assms by simp_all
  then show ?thesis using ne h l by (simp add: strip_id)
qed

lemma paragraph_texts_stripped:
  "t \<in> set (stripped_paragraph_texts soup) \<Longrightarrow> t \<noteq> [] \<and> \<not> isspace (hd t) \<and> \<not> isspace (last t)"
  using strip_ends by (auto simp: stripped_paragraph_texts_def)

lemma strip_paragraphs:
  assumes "stripped_paragraph_texts soup \<noteq> []"
  shows "strip (concat (take 50 (stripped_paragraph_texts soup))) = concat (take 50 (stripped_paragraph_texts soup))"
proof (rule strip_concat_stripped)
  show "take 50 (stripped_paragraph_texts soup) \<noteq> []" using assms by simp
  show "\<forall>t \<in> set (take 50 (stripped_paragraph_texts soup)). t \<noteq> [] \<and> \<not> isspace (hd t) \<and> \<not> isspace (last t)"
    using paragraph_texts_stripped in_set_takeD by metis
qed


lemma block_candidates_eq:
  "find_all soup [''div'', ''section'', ''article'', ''body''] (Some 40) = block_candidates soup"
  by (simp add: block_candidates_def find_all_def find_all_where_def)

text \<open>
  C5, as the code has it. The article text follows the ordered fallback: the text of
  the first \<open>article\<close> element; else of the first \<open>main\<close> element; else the stripped
  text of the first of the block candidates (at most 40) whose stripped text is
  longest, if that stripped text is longer than 200 characters; else the concatenation
  of the first 50 stripped paragraph texts that are not empty after the strip, if there
  is one; else the text of the whole page. \<open>find\<close> is the first match in document
  order, and what \<open>extract_text_from_html\<close> returns is this text, stripped, of the
  parsed document without its \<open>script\<close>, \<open>style\<close> and \<open>noscript\<close> elements; on the
  paragraph fallback that last strip changes nothing.
\<close>

theorem article_text_fallback:
  "(find soup ''article'' = Some a \<longrightarrow> extract_main_article_text soup = get_text a) \<and>
   (find soup ''article'' = None \<and> find soup ''main'' = Some m \<longrightarrow>
      extract_main_article_text soup = get_text m) \<and>
   (find soup ''article'' = None \<and> find soup ''main'' = None \<and>
    (\<exists>c \<in> set (block_candidates soup). 200 < length (strip (get_text c))) \<longrightarrow>
      (\<exists>pre c post. block_candidates soup = pre @ c # post \<and>
         extract_main_article_text soup = strip (get_text c) \<and>
         200 < length (strip (get_text c)) \<and>
         (\<forall>c' \<in> set pre. length (strip (get_text c')) < length (strip (get_text c))) \<and>
         (\<forall>c' \<in> set post. length (strip (get_text c')) \<le> length (strip (get_text c))))) \<and>
   (find soup ''article'' = None \<and> find soup ''main'' = None \<and>
    (\<forall>c \<in> set (block_candidates soup). length (strip (get_text c)) \<le> 200) \<and>
    stripped_paragraph_texts soup \<noteq> [] \<longrightarrow>
      extract_main_article_text soup = concat (take 50 (stripped_paragraph_texts soup)) \<and>
      strip (extract_main_article_text soup) = extract_main_article_text soup) \<and>
   (find soup ''article'' = None \<and> find soup ''main'' = None \<and>
    (\<forall>c \<in> set (block_candidates soup). length (strip (get_text c)) \<le> 200) \<and>
    stripped_paragraph_texts soup = [] \<longrightarrow>
      extract_main_article_text soup = get_text soup) \<and>
   length (block_candidates soup) \<le> 40 \<and>
   find soup name =
     (case filter (named [name]) (descendants soup) of [] \<Rightarrow> None | t # _ \<Rightarrow> Some t) \<and>
   snd (extract_text_from_html w html) =
     strip (extract_main_article_text
       (decompose_all [''script'', ''style'', ''noscript''] (parse_html w html)))"
proof -
  have blk: "find soup ''article'' = None \<and> find soup ''main'' = None \<and>
    (\<exists>c \<in> set (block_candidates soup). 200 < length (strip (get_text c))) \<longrightarrow>
      (\<exists>pre c post. block_candidates soup = pre @ c # post \<and>
         extract_main_article_text soup = strip (get_text c) \<and>
         200 < length (strip (get_text c)) \<and>
         (\<forall>c' \<in> set pre. length (strip (get_text c')) < length (strip (get_text c))) \<and>
         (\<forall>c' \<in> set post. length (strip (get_text c')) \<le> length (strip (get_text c))))"
    using emat_block [of soup] unfolding block_candidates_eq by blast
  have par: "find soup ''article'' = None \<and> find soup ''main'' = None \<and>
    (\<forall>c \<in> set (block_candidates soup). length (strip (get_text c)) \<le> 200) \<and>
    stripped_paragraph_texts soup \<noteq> [] \<longrightarrow>
      extract_main_article_text soup = concat (take 50 (stripped_paragraph_texts soup)) \<and>
      strip (extract_main_article_text soup) = extract_main_article_text soup"
    using emat_small [of soup] strip_paragraphs [of soup] unfolding block_candidates_eq by simp
  have full: "find soup ''article'' = None \<and> find soup ''main'' = None \<and>
    (\<forall>c \<in> set (block_candidates soup). length (strip (get_text c)) \<le> 200) \<and>
    stripped_paragraph_texts soup = [] \<longrightarrow>
      extract_main_article_text soup = get_text soup"
    using emat_small [of soup] unfolding block_candidates_eq by simp
  have len: "length (block_candidates soup) \<le> 40"
    by (simp add: block_candidates_def)
  have html: "snd (extract_text_from_html w html) =
     strip (extract_main_article_text
       (decompose_all [''script'', ''style'', ''noscript''] (parse_html w html)))"
    by (simp add: extract_text_from_html_def Let_def)
  show ?thesis
    using emat_article [of soup a] emat_main [of soup m] blk par full len html find_first [of soup name]
    by blast
qed

theorem article_text_fallback_witness:
  "find paragraphs_only ''article'' = None \<and> find paragraphs_only ''main'' = None \<and>
   block_candidates paragraphs_only = [] \<and>
   stripped_paragraph_texts paragraphs_only = [''Hello'', ''World''] \<and>
   extract_main_article_text paragraphs_only = ''HelloWorld'' \<and>
   find with_article ''article'' =
     Some (Tag ''article'' [] [NavigableString ''first '', Tag ''b'' [] [NavigableString ''one'']]) \<and>
   extract_main_article_text with_article = ''first one''"
proof -
  have a: "find paragraphs_only ''article'' = None" by code_simp
  have m: "find paragraphs_only ''main'' = None" by code_simp
  have c: "block_candidates paragraphs_only = []" by code_simp
  have p: "stripped_paragraph_texts paragraphs_only = [''Hello'', ''World'']" by code_simp
  have f: "find with_article ''article'' =
     Some (Tag ''article'' [] [NavigableString ''first '', Tag ''b'' [] [NavigableString ''one'']])"
    by code_simp
  have "extract_main_article_text paragraphs_only = ''HelloWorld''"
    using article_text_fallback [of paragraphs_only] a m c p by simp
  moreover have "extract_main_article_text with_article = ''first one''"
    using article_text_fallback [of with_article] f by simp
  ultimately show ?thesis using a m c p f by simp
qed

text \<open>
  The claim as stated, with the texts as they stand in the document, fails: the code
  strips every paragraph text before it joins them, and it measures a block by its
  stripped text, so a block of 204 characters of which 200 remain after the strip is
  refused and the paragraphs are taken.
\<close>

theorem unstripped_article_text_counterexample:
  "extract_main_article_text paragraphs_only = ''HelloWorld'' \<and>
   article_text_as_specified paragraphs_only = '' Hello   World'' \<and>
   extract_main_article_text padded_block = ''short'' \<and>
   length (article_text_as_specified padded_block) = 204 \<and>
   extract_main_article_text paragraphs_only \<noteq> article_text_as_specified paragraphs_only \<and>
   extract_main_article_text padded_block \<noteq> article_text_as_specified padded_block"
  by code_simp

section \<open>Fetching with retries\<close>

declare safe_get_from.simps [simp del]

lemma requests_made_emit [simp]:
  "requests_made (emit (Get u) st) = Suc (requests_made st)"
  "requests_made (emit (Sleep x) st) = requests_made st"
  "requests_made (emit (Processing d u) st) = requests_made st"
  by (simp_all add: requests_made_def emit_def)

lemma attempt_fails_eq:
  "attempt_fails w (requests_made st) u \<Longrightarrow> attempt w u st = (None, emit (Get u) st)"
  by (auto simp: attempt_fails_def attempt_def split: get_outcome.splits)

lemma attempt_ok_eq:
  "http_get w (requests_made st) u = Responds r \<Longrightarrow> \<not> attempt_fails w (requests_made st) u \<Longrightarrow>
   attempt w u st = (Some r, emit (Get u) st)"
  by (auto simp: attempt_fails_def attempt_def split: get_outcome.splits)

lemma requests_made_upd [simp]:
  "requests_made (st\<lparr>trace := trace st @ es\<rparr>) = requests_made st + length (filter is_get es)"
  by (simp add: requests_made_def)

lemma emit_trace: "emit e st = st\<lparr>trace := trace st @ [e]\<rparr>"
  by (simp add: emit_def)

lemma sg1: "http_get w (requests_made st) u = Responds r \<Longrightarrow> \<not> attempt_fails w (requests_made st) u \<Longrightarrow>
  safe_get w u st = (Some r, st\<lparr>trace := trace st @ [Get u]\<rparr>)"
  by (simp add: safe_get_def safe_get_from.simps [of w u 0] REQUEST_RETRIES_def attempt_ok_eq emit_trace)

lemma sg2: "attempt_fails w (requests_made st) u \<Longrightarrow>
  http_get w (requests_made st + 1) u = Responds r \<Longrightarrow> \<not> attempt_fails w (requests_made st + 1) u \<Longrightarrow>
  safe_get w u st = (Some r, st\<lparr>trace := trace st @ [Get u, Sleep 1, Get u]\<rparr>)"
  by (simp add: safe_get_def safe_get_from.simps [of w u 0] safe_get_from.simps [of w u "Suc 0"] 
     REQUEST_RETRIES_def attempt_ok_eq attempt_fails_eq  emit_trace)

lemma sg3: "attempt_fails w (requests_made st) u \<Longrightarrow> attempt_fails w (requests_made st + 1) u \<Longrightarrow>
  http_get w (requests_made st + 2) u = Responds r \<Longrightarrow> \<not> attempt_fails w (requests_made st + 2) u \<Longrightarrow>
  safe_get w u st = (Some r, st\<lparr>trace := trace st @ [Get u, Sleep 1, Get u, Sleep 3, Get u]\<rparr>)"
  by (simp add: safe_get_def safe_get_from.simps [of w u 0] safe_get_from.simps [of w u "Suc 0"]  safe_get_from.simps [of w u "Suc (Suc 0)"] 
     REQUEST_RETRIES_def attempt_ok_eq attempt_fails_eq  emit_trace)

lemma sg4: "attempt_fails w (requests_made st) u \<Longrightarrow> attempt_fails w (requests_made st + 1) u \<Longrightarrow>
  attempt_fails w (requests_made st + 2) u \<Longrightarrow>
  safe_get w u st = (None, st\<lparr>trace := trace st @ [Get u, Sleep 1, Get u, Sleep 3, Get u, Sleep 5]\<rparr>)"
  by (simp add: safe_get_def safe_get_from.simps [of w u 0] safe_get_from.simps [of w u "Suc 0"]  safe_get_from.simps [of w u "Suc (Suc 0)"] 
  safe_get_from.simps [of w u "Suc (Suc (Suc 0))"] 
     REQUEST_RETRIES_def attempt_ok_eq attempt_fails_eq  emit_trace)


declare process_url.simps [simp del]

lemma attempt_fails_iff:
  "attempt_fails w n u \<longleftrightarrow>
     (\<exists>e. http_get w n u = Raises e) \<or>
     (\<exists>r. http_get w n u = Responds r \<and> 400 \<le> resp_status_code r \<and> resp_status_code r < 600)"
  by (cases "http_get w n u") (simp_all add: attempt_fails_def raises_for_status_def)

lemma process_url_failed_fetch:
  assumes "v \<notin> visited st"
    and "fst (safe_get w (rewrite_url v) (emit (Processing d v) (st\<lparr>visited := insert v (visited st)\<rparr>))) = None"
  shows "process_url w v root_u d st =
     (Returned (Some (new_result v root_u\<lparr>error := Some ''failed_to_fetch''\<rparr>)),
      snd (safe_get w (rewrite_url v) (emit (Processing d v) (st\<lparr>visited := insert v (visited st)\<rparr>))))"
proof (cases "safe_get w (rewrite_url v) (emit (Processing d v) (st\<lparr>visited := insert v (visited st)\<rparr>))")
  case (Pair ro st1)
  with assms show ?thesis
    by (simp add: process_url.simps [of w v] Let_def)
qed

text \<open>
  C8, as the code has it. \<open>safe_get\<close> makes at most three attempts: an attempt fails when
  the request raises or answers with a 4xx or 5xx status, a failed attempt is followed
  by a sleep of 1, 3 and 5 seconds, the first attempt that does not fail gives the
  response (whatever its status otherwise), and after three failures the result is
  \<open>None\<close>: no exception leaves \<open>safe_get\<close>. \<open>process_url\<close> turns that \<open>None\<close> into a
  returned record with \<open>error = failed_to_fetch\<close> and no content. \<open>fetch\<close> of scrape.py
  makes one attempt and gives \<open>None\<close> when it fails.
\<close>

theorem safe_get_bounded_retries:
  "(attempt_fails w n u \<longleftrightarrow>
      (\<exists>e. http_get w n u = Raises e) \<or>
      (\<exists>r. http_get w n u = Responds r \<and> 400 \<le> resp_status_code r \<and> resp_status_code r < 600)) \<and>
   (requests_made st = n \<and> http_get w n u = Responds r \<and> \<not> attempt_fails w n u \<longrightarrow>
      safe_get w u st = (Some r, st\<lparr>trace := trace st @ [Get u]\<rparr>) \<and>
      fetch w u st = (Some r, st\<lparr>trace := trace st @ [Get u]\<rparr>)) \<and>
   (requests_made st = n \<and> attempt_fails w n u \<and>
    http_get w (n + 1) u = Responds r \<and> \<not> attempt_fails w (n + 1) u \<longrightarrow>
      safe_get w u st = (Some r, st\<lparr>trace := trace st @ [Get u, Sleep 1, Get u]\<rparr>)) \<and>
   (requests_made st = n \<and> attempt_fails w n u \<and> attempt_fails w (n + 1) u \<and>
    http_get w (n + 2) u = Responds r \<and> \<not> attempt_fails w (n + 2) u \<longrightarrow>
      safe_get w u st =
        (Some r, st\<lparr>trace := trace st @ [Get u, Sleep 1, Get u, Sleep 3, Get u]\<rparr>)) \<and>
   (requests_made st = n \<and> attempt_fails w n u \<and> attempt_fails w (n + 1) u \<and>
    attempt_fails w (n + 2) u \<longrightarrow>
      safe_get w u st =
        (None, st\<lparr>trace := trace st @ [Get u, Sleep 1, Get u, Sleep 3, Get u, Sleep 5]\<rparr>)) \<and>
   (requests_made st = n \<and> attempt_fails w n u \<longrightarrow>
      fetch w u st = (None, st\<lparr>trace := trace st @ [Get u]\<rparr>)) \<and>
   (v \<notin> visited st \<and>
    fst (safe_get w (rewrite_url v)
          (emit (Processing d v) (st\<lparr>visited := insert v (visited st)\<rparr>))) = None \<longrightarrow>
      (\<exists>rec. fst (process_url w v root_u d st) = Returned (Some rec) \<and>
         error rec = Some ''failed_to_fetch'' \<and> status_code rec = None \<and>
         content_type rec = None \<and> local_path rec = None \<and> \<not> downloaded rec \<and>
         full_text rec = None \<and> article_text rec = None))"
proof -
  have f1: "requests_made st = n \<and> http_get w n u = Responds r \<and> \<not> attempt_fails w n u \<longrightarrow>
      fetch w u st = (Some r, st\<lparr>trace := trace st @ [Get u]\<rparr>)"
    using attempt_ok_eq [of w st u r] by (auto simp: fetch_def emit_trace)
  have f2: "requests_made st = n \<and> attempt_fails w n u \<longrightarrow>
      fetch w u st = (None, st\<lparr>trace := trace st @ [Get u]\<rparr>)"
    using attempt_fails_eq [of w st u] by (auto simp: fetch_def emit_trace)
  have p: "v \<notin> visited st \<and>
    fst (safe_get w (rewrite_url v)
          (emit (Processing d v) (st\<lparr>visited := insert v (visited st)\<rparr>))) = None \<longrightarrow>
      (\<exists>rec. fst (process_url w v root_u d st) = Returned (Some rec) \<and>
         error rec = Some ''failed_to_fetch'' \<and> status_code rec = None \<and>
         content_type rec = None \<and> local_path rec = None \<and> \<not> downloaded rec \<and>
         full_text rec = None \<and> article_text rec = None)"
    using process_url_failed_fetch [of v st w d root_u] by (auto simp: new_result_def)
  show ?thesis
    using attempt_fails_iff [of w n u] sg1 [of w st u r] sg2 [of w st u r] sg3 [of w st u r]
      sg4 [of w st u] f1 f2 p
    by (simp add: numeral_2_eq_2)
qed

theorem safe_get_bounded_retries_witness:
  "fst (safe_get (example_world net_flaky []) ''http://a/'' (initial_state Map.empty)) =
     Some (example_response 200 ''http://a/'' ''text/html'' ''ok'') \<and>
   trace (snd (safe_get (example_world net_flaky []) ''http://a/'' (initial_state Map.empty))) =
     [Get ''http://a/'', Sleep 1, Get ''http://a/'', Sleep 3, Get ''http://a/''] \<and>
   fst (safe_get (example_world net_down []) ''http://a/'' (initial_state Map.empty)) = None \<and>
   trace (snd (safe_get (example_world net_down []) ''http://a/'' (initial_state Map.empty))) =
     [Get ''http://a/'', Sleep 1, Get ''http://a/'', Sleep 3, Get ''http://a/'', Sleep 5]"
proof -
  let ?st = "initial_state Map.empty"
  have n: "requests_made ?st = 0" by (simp add: requests_made_def initial_state_def)
  have a: "attempt_fails (example_world net_flaky []) 0 ''http://a/''"
    "attempt_fails (example_world net_flaky []) (0 + 1) ''http://a/''"
    "\<not> attempt_fails (example_world net_flaky []) (0 + 2) ''http://a/''"
    "http_get (example_world net_flaky []) (0 + 2) ''http://a/'' =
       Responds (example_response 200 ''http://a/'' ''text/html'' ''ok'')"
    by (simp_all add: attempt_fails_def example_world_def net_flaky_def raises_for_status_def
        example_response_def)
  have b: "attempt_fails (example_world net_down []) 0 ''http://a/''"
    "attempt_fails (example_world net_down []) (0 + 1) ''http://a/''"
    "attempt_fails (example_world net_down []) (0 + 2) ''http://a/''"
    by (simp_all add: attempt_fails_def example_world_def net_down_def)
  have "safe_get (example_world net_flaky []) ''http://a/'' ?st =
      (Some (example_response 200 ''http://a/'' ''text/html'' ''ok''),
       ?st\<lparr>trace := trace ?st @ [Get ''http://a/'', Sleep 1, Get ''http://a/'', Sleep 3, Get ''http://a/'']\<rparr>)"
    using safe_get_bounded_retries [of "example_world net_flaky []" 0 "''http://a/''" ?st
        "example_response 200 ''http://a/'' ''text/html'' ''ok''"] n a
    by blast
  moreover have "safe_get (example_world net_down []) ''http://a/'' ?st =
      (None, ?st\<lparr>trace := trace ?st @
         [Get ''http://a/'', Sleep 1, Get ''http://a/'', Sleep 3, Get ''http://a/'', Sleep 5]\<rparr>)"
    using safe_get_bounded_retries [of "example_world net_down []" 0 "''http://a/''" ?st] n b
    by blast
  ultimately show ?thesis by (simp add: initial_state_def)
qed

text \<open>
  The claim as stated fails twice: a 304 answer is not a 2xx status, and \<open>safe_get\<close>
  returns it after one request, without a retry; and \<open>fetch\<close> does not retry at all.
\<close>

theorem retry_on_non_2xx_counterexample:
  "fst (safe_get (example_world net_not_modified []) ''http://a/'' (initial_state Map.empty)) =
     Some (example_response 304 ''http://a/'' ''text/html'' []) \<and>
   trace (snd (safe_get (example_world net_not_modified []) ''http://a/'' (initial_state Map.empty))) =
     [Get ''http://a/''] \<and>
   fst (fetch (example_world net_down []) ''http://a/'' (initial_state Map.empty)) = None \<and>
   trace (snd (fetch (example_world net_down []) ''http://a/'' (initial_state Map.empty))) =
     [Get ''http://a/'']"
  by code_simp

section \<open>The crawl: visited set, depths, requests\<close>

lemma tasks_append [simp]: "tasks (a @ b) = tasks a @ tasks b"
  by (induction a rule: tasks.induct) simp_all

lemma gets_append [simp]: "gets (a @ b) = gets a @ gets b"
  by (induction a rule: gets.induct) simp_all

lemma processed_append [simp]: "processed (a @ b) = processed a @ processed b"
  by (simp add: processed_def)

lemma processed_simps [simp]:
  "processed [] = []"
  "processed (Processing d u # es) = u # processed es"
  "processed (Get u # es) = processed es"
  "processed (Sleep x # es) = processed es"
  by (simp_all add: processed_def)


lemma emit_fields [simp]:
  "visited (emit e st) = visited st" "files (emit e st) = files st"
  "trace (emit e st) = trace st @ [e]"
  by (simp_all add: emit_def)














lemma new_result_source [simp]: "source_url (new_result u root_u) = u"
  by (simp add: new_result_def)








lemma forest_depth: "forest d ts \<Longrightarrow> (d', u) \<in> set ts \<Longrightarrow> d \<le> d'"
  by (induction arbitrary: d' u rule: forest.induct) (auto dest: Suc_leD)







section \<open>Routing and persistence in \<open>process_url\<close>\<close>

lemma attempt_some_ok: "attempt w u st = (Some r, st') \<Longrightarrow> \<not> raises_for_status r"
  by (auto simp: attempt_def split: get_outcome.splits if_splits)

lemma safe_get_from_some_ok:
  "safe_get_from w u i st = (Some r, st') \<Longrightarrow> \<not> raises_for_status r"
proof (induction w u i st arbitrary: st' rule: safe_get_from.induct)
  case (1 w u i st)
  show ?case
  proof (cases "i < REQUEST_RETRIES")
    case False
    with "1.prems" show ?thesis by (simp add: safe_get_from.simps [of w u i])
  next
    case True
    obtain a st1 where at: "attempt w u st = (a, st1)" by (cases "attempt w u st")
    show ?thesis
    proof (cases a)
      case (Some r')
      with "1.prems" True at have "r' = r" by (simp add: safe_get_from.simps [of w u i])
      with at Some show ?thesis using attempt_some_ok by blast
    next
      case None
      with "1.prems" True at
      have "safe_get_from w u (Suc i) (emit (Sleep (1 + of_nat i * 2)) st1) = (Some r, st')"
        by (simp add: safe_get_from.simps [of w u i])
      from "1.IH" [OF True at [symmetric] None this] show ?thesis .
    qed
  qed
qed

lemma safe_get_some_ok: "safe_get w u st = (Some r, st') \<Longrightarrow> \<not> raises_for_status r"
  using safe_get_from_some_ok by (simp add: safe_get_def)

lemma is_pdf_response_ok:
  "\<not> raises_for_status r \<Longrightarrow>
   is_pdf_response (Some r) u =
     (contains ''pdf'' (lower (header_content_type r)) \<or> endswith (lower u) ''.pdf'')"
  by (simp add: is_pdf_response_def resp_truthy_def)

lemma write_file_files:
  "write_file w p data st = Inr st' \<Longrightarrow> files st' = (files st)(p \<mapsto> data)"
  by (auto simp: write_file_def split: option.splits)

lemma process_pdf_fields:
  "process_pdf w r res st = (exc, res', st') \<Longrightarrow>
   article_text res' = article_text res \<and> error res' = error res \<and>
   content_type res' = content_type res \<and> fetched_url res' = fetched_url res \<and>
   (exc = None \<longrightarrow> local_path res' =
      Some (path_join DOWNLOAD_DIR (with_suffix (make_filename_from_url w (resp_url r)) ''.pdf'')))"
  by (auto simp: process_pdf_def Let_def split: sum.splits)

lemma process_html_fields:
  assumes "process_html w r res st = (exc, res', links, st')"
  shows "error res' = error res \<and>
   content_type res' = content_type res \<and> fetched_url res' = fetched_url res \<and>
   (exc = None \<longrightarrow> article_text res' \<noteq> None \<and> local_path res' =
      Some (path_join DOWNLOAD_DIR (with_suffix (make_filename_from_url w (resp_url r)) ''.html'')))"
proof -
  let ?lp = "path_join DOWNLOAD_DIR (with_suffix (make_filename_from_url w (resp_url r)) ''.html'')"
  let ?txt = "path_join EXTRACT_DIR (basename ?lp @ ''.txt'')"
  let ?art = "path_join EXTRACT_DIR (basename ?lp @ ''.article.txt'')"
  obtain full article where ex: "extract_text_from_html w (resp_text r) = (full, article)"
    by (cases "extract_text_from_html w (resp_text r)")
  show ?thesis
  proof (cases "write_file w ?lp (resp_text r) st")
    case (Inl e)
    with assms show ?thesis by (auto simp add: process_html_def Let_def)
  next
    case w1: (Inr st1)
    show ?thesis
    proof (cases "write_file w ?txt full st1")
      case (Inl e)
      with assms w1 ex show ?thesis by (auto simp add: process_html_def Let_def)
    next
      case w2: (Inr st2)
      show ?thesis
      proof (cases "write_file w ?art article st2")
        case (Inl e)
        with assms w1 w2 ex show ?thesis by (auto simp add: process_html_def Let_def)
      next
        case w3: (Inr st3)
        show ?thesis
        proof (cases "find (parse_html w (resp_text r)) ''title''")
          case None
          with assms w1 w2 w3 ex show ?thesis by (auto simp add: process_html_def Let_def)
        next
          case (Some t)
          with assms w1 w2 w3 ex show ?thesis by (auto simp add: process_html_def Let_def)
        qed
      qed
    qed
  qed
qed

lemma last_path_join: "b \<noteq> [] \<Longrightarrow> last (path_join a b) = last b"
  by (simp add: path_join_def)

lemma json_path_not_combined: "path_join JSON_OUT_DIR (base @ ''.json'') \<noteq> COMBINED_JSONL"
proof
  assume "path_join JSON_OUT_DIR (base @ ''.json'') = COMBINED_JSONL"
  then have "last (path_join JSON_OUT_DIR (base @ ''.json'')) = last (path_join JSON_OUT_DIR ''combined.jsonl'')"
    by (simp add: COMBINED_JSONL_def)
  then show False by (simp add: last_path_join)
qed

lemma persist_record:
  assumes "persist w u exc res st = (Returned (Some rec), st')"
  shows "rec = (case exc of None \<Rightarrow> res | Some e \<Rightarrow> res\<lparr>error := Some e\<rparr>) \<and>
     files st' COMBINED_JSONL =
       Some ((case files st COMBINED_JSONL of None \<Rightarrow> [] | Some old \<Rightarrow> old) @ json_dumps w rec) \<and>
     (\<exists>p. files st' p = Some (json_dump_indent w rec))"
proof -
  let ?res = "case exc of None \<Rightarrow> res | Some e \<Rightarrow> res\<lparr>error := Some e\<rparr>"
  let ?jp = "path_join JSON_OUT_DIR (make_filename_from_url w
                   (case fetched_url ?res of None \<Rightarrow> u | Some f \<Rightarrow> str_or f u) @ ''.json'')"
  obtain st1 where w1: "write_file w ?jp (json_dump_indent w ?res) st = Inr st1"
  proof (cases "write_file w ?jp (json_dump_indent w ?res) st")
    case (Inl e)
    with assms show ?thesis by (simp add: persist_def Let_def)
  next
    case (Inr st1)
    then show ?thesis using that by simp
  qed
  obtain st2 where a1: "append_file w COMBINED_JSONL (json_dumps w ?res @ []) st1 = Inr st2"
  proof (cases "append_file w COMBINED_JSONL (json_dumps w ?res @ []) st1")
    case (Inl e)
    with assms w1 show ?thesis by (simp add: persist_def Let_def)
  next
    case (Inr st2)
    then show ?thesis using that by simp
  qed
  have r: "rec = ?res" and s: "st' = emit (Sleep SLEEP_BETWEEN_REQUESTS) st2"
    using assms w1 a1 by (simp_all add: persist_def Let_def)
  have f1: "files st1 = (files st)(?jp \<mapsto> json_dump_indent w ?res)"
    using w1 by (rule write_file_files)
  have f2: "files st2 = (files st1)(COMBINED_JSONL \<mapsto>
      (case files st1 COMBINED_JSONL of None \<Rightarrow> [] | Some old \<Rightarrow> old) @ json_dumps w ?res)"
    using a1 by (auto simp: append_file_def split: option.splits)
  have ne: "?jp \<noteq> COMBINED_JSONL" by (rule json_path_not_combined)
  have c: "files st' COMBINED_JSONL =
       Some ((case files st COMBINED_JSONL of None \<Rightarrow> [] | Some old \<Rightarrow> old) @ json_dumps w rec)"
    using f1 f2 ne r s by (simp add: emit_def)
  have "files st' ?jp = Some (json_dump_indent w rec)"
    using f1 f2 ne r s by (simp add: emit_def)
  then show ?thesis using r c by blast
qed

lemma process_url_shape:
  assumes nv: "v \<notin> visited st"
    and eq: "process_url w v root_u d st = (out, st')"
    and sg: "safe_get w (rewrite_url v) (claimed d v st) = (Some r, st1)"
  shows "if is_pdf_response (Some r) (rewrite_url v)
         then (\<exists>exc res2 st2. process_pdf w r (fetched_result v root_u r) st1 = (exc, res2, st2) \<and>
                 persist w (rewrite_url v) exc res2 st2 = (out, st'))
         else (\<exists>exc res2 links st2 exc' res3 st3.
                 process_html w r (fetched_result v root_u r) st1 = (exc, res2, links, st2) \<and>
                 persist w (rewrite_url v) exc' res3 st3 = (out, st') \<and>
                 (exc' = None \<longrightarrow> exc = None) \<and>
                 (res3 = res2 \<or> (\<exists>n. res3 = res2\<lparr>children_count := Some n\<rparr>)))"
proof -
  let ?u' = "rewrite_url v"
  let ?res1 = "fetched_result v root_u r"
  have sg0: "safe_get w ?u' (emit (Processing d v) (st\<lparr>visited := insert v (visited st)\<rparr>)) = (Some r, st1)"
    using sg by (simp add: claimed_def)
  show ?thesis
  proof (cases "is_pdf_response (Some r) ?u'")
    case True
    obtain exc res2 st2 where pp: "process_pdf w r ?res1 st1 = (exc, res2, st2)"
      by (cases "process_pdf w r ?res1 st1") auto
    with eq nv sg0 True have "persist w ?u' exc res2 st2 = (out, st')"
      by (simp add: process_url.simps [of w v] Let_def fetched_result_def)
    with pp True show ?thesis by simp
  next
    case npdf: False
    obtain exc res2 links st2 where ph: "process_html w r ?res1 st1 = (exc, res2, links, st2)"
      by (cases "process_html w r ?res1 st1") auto
    have "\<exists>exc' res3 st3. persist w ?u' exc' res3 st3 = (out, st') \<and> (exc' = None \<longrightarrow> exc = None) \<and>
            (res3 = res2 \<or> (\<exists>n. res3 = res2\<lparr>children_count := Some n\<rparr>))"
    proof (cases exc)
      case (Some e)
      with eq nv sg0 npdf ph have "persist w ?u' (Some e) res2 st2 = (out, st')"
        by (simp add: process_url.simps [of w v] Let_def fetched_result_def)
      then show ?thesis by blast
    next
      case None
      show ?thesis
      proof (cases "FOLLOW_LINKS \<and> d < MAX_CRAWL_DEPTH")
        case False
        from eq nv sg0 npdf ph None
        have "(if FOLLOW_LINKS \<and> d < MAX_CRAWL_DEPTH
               then case follow_links w (take MAX_LINKS_PER_PAGE links) (root_url res2) d 0 st2 of
                      (None, n, x) \<Rightarrow> persist w ?u' None (res2\<lparr>children_count := Some n\<rparr>) x
                    | (Some e, n, x) \<Rightarrow> persist w ?u' (Some e) res2 x
               else persist w ?u' None res2 st2) = (out, st')"
          by (simp add: process_url.simps [of w v] Let_def fetched_result_def)
        then have "persist w ?u' None res2 st2 = (out, st')"
          by (simp only: if_not_P [OF False])
        with None show ?thesis by blast
      next
        case guard: True
        obtain exc' n st3 where fl:
          "follow_links w (take MAX_LINKS_PER_PAGE links) (root_url res2) d 0 st2 = (exc', n, st3)"
          by (cases "follow_links w (take MAX_LINKS_PER_PAGE links) (root_url res2) d 0 st2") auto
        show ?thesis
        proof (cases exc')
          case None
          with eq nv sg0 npdf ph \<open>exc = None\<close> guard fl
          have "persist w ?u' None (res2\<lparr>children_count := Some n\<rparr>) st3 = (out, st')"
            by (simp add: process_url.simps [of w v] Let_def fetched_result_def)
          with \<open>exc = None\<close> show ?thesis by blast
        next
          case (Some e)
          with eq nv sg0 npdf ph \<open>exc = None\<close> guard fl
          have "persist w ?u' (Some e) res2 st3 = (out, st')"
            by (simp add: process_url.simps [of w v] Let_def fetched_result_def)
          then show ?thesis by blast
        qed
      qed
    qed
    with ph npdf show ?thesis by auto
  qed
qed


end
